theory Spec2Isabelle
  imports Main
begin

section \<open>String helpers used by the handlers\<close>

text \<open>
  Go strings are byte sequences; \<open>string\<close> (a list of 8-bit characters) models them.
  \<open>strings.HasPrefix\<close>, \<open>strings.HasSuffix\<close> and \<open>strings.TrimPrefix\<close> follow the
  standard library: a length test, then a comparison of the slice.
\<close>

definition HasPrefix :: "string \<Rightarrow> string \<Rightarrow> bool" where
  "HasPrefix s prefix = (length s \<ge> length prefix \<and> take (length prefix) s = prefix)"

definition HasSuffix :: "string \<Rightarrow> string \<Rightarrow> bool" where
  "HasSuffix s suffix =
     (length s \<ge> length suffix \<and> drop (length s - length suffix) s = suffix)"

definition TrimPrefix :: "string \<Rightarrow> string \<Rightarrow> string" where
  "TrimPrefix s prefix = (if HasPrefix s prefix then drop (length prefix) s else s)"

text \<open>
  \<open>strings.Split(s, sep)\<close> for a one-byte separator (the handlers only split on the
  slash): \<open>n\<close> separators give \<open>n + 1\<close> parts, and the empty string gives one empty part.
\<close>

fun Split :: "string \<Rightarrow> char \<Rightarrow> string list" where
  "Split [] sep = [[]]"
| "Split (c # cs) sep =
     (if c = sep then [] # Split cs sep
      else (c # hd (Split cs sep)) # tl (Split cs sep))"

subsection \<open>strconv.Atoi\<close>

text \<open>
  \<open>strconv.Atoi\<close> on a 64-bit platform: an optional sign, then at least one character,
  all of them decimal digits, and a value that fits the signed 64-bit \<open>int\<close>. Anything
  else is an error (\<open>None\<close>).
\<close>

definition isDigit :: "char \<Rightarrow> bool" where
  "isDigit c = (48 \<le> (of_char c :: nat) \<and> (of_char c :: nat) \<le> 57)"

definition digitVal :: "char \<Rightarrow> int" where
  "digitVal c = int (of_char c) - 48"

fun digitsVal :: "int \<Rightarrow> string \<Rightarrow> int" where
  "digitsVal n [] = n"
| "digitsVal n (c # cs) = digitsVal (n * 10 + digitVal c) cs"

definition Atoi :: "string \<Rightarrow> int option" where
  "Atoi s =
     (let neg = (s \<noteq> [] \<and> hd s = CHR ''-'');
          ds = (if s \<noteq> [] \<and> (hd s = CHR ''-'' \<or> hd s = CHR ''+'') then tl s else s)
      in if ds = [] then None
         else if \<not> list_all isDigit ds then None
         else let un = digitsVal 0 ds
              in if \<not> neg \<and> un \<ge> 9223372036854775808 then None
                 else if neg \<and> un > 9223372036854775808 then None
                 else Some (if neg then - un else un))"

section \<open>Models\<close>

text \<open>
  \<open>time.Time\<close>: the zero value, or an instant read from the clock. The clock never reads
  the zero value.
\<close>

datatype Time = ZeroTime | Instant nat

record Answer =
  aID :: int
  aQuestionID :: int
  aUserID :: string
  aText :: string
  aCreatedAt :: Time

record Question =
  qID :: int
  qText :: string
  qCreatedAt :: Time
  qAnswers :: "Answer list"

section \<open>The relational store\<close>

text \<open>
  The schema that \<open>AutoMigrate\<close> derives from the two structs: a table \<open>questions\<close> with
  the columns id, text and created_at (the \<open>Answers\<close> field is an association, not a
  column), a table \<open>answers\<close> with one column per field of \<open>Answer\<close>, an auto-increment
  sequence for each primary key and a foreign key from \<open>answers.question_id\<close> to
  \<open>questions.id\<close> with \<open>ON DELETE CASCADE\<close>.
\<close>

type_synonym question_row = "int \<times> string \<times> Time"

record DB =
  questions :: "question_row list"
  answers :: "Answer list"
  questions_id_seq :: int
  answers_id_seq :: int

definition emptyDB :: DB where
  "emptyDB = \<lparr>questions = [], answers = [], questions_id_seq = 1, answers_id_seq = 1\<rparr>"

definition scanQuestion :: "question_row \<Rightarrow> Question" where
  "scanQuestion r = \<lparr>qID = fst r, qText = fst (snd r), qCreatedAt = snd (snd r), qAnswers = []\<rparr>"

definition question_ids :: "DB \<Rightarrow> int list" where
  "question_ids db = map fst (questions db)"

definition answer_ids :: "DB \<Rightarrow> int list" where
  "answer_ids db = map aID (answers db)"

text \<open>
  What lies outside the program is an input of the model: the reading of the clock, and
  for each database call of a request (numbered from 0) whether it fails unexpectedly
  (lost connection, failed query).
\<close>

record Env =
  now :: nat
  fails :: "nat \<Rightarrow> bool"

datatype error = ErrRecordNotFound | ErrStorage

text \<open>The part of a \<open>*gorm.DB\<close> result that \<open>Delete\<close> callers read.\<close>

record Result =
  RowsAffected :: int
  Error :: "error option"

definition autoCreateTime :: "nat \<Rightarrow> Time \<Rightarrow> Time" where
  "autoCreateTime clock t = (if t = ZeroTime then Instant clock else t)"

text \<open>
  \<open>DB.Create\<close> of a question: a zero primary key is left to the sequence, a non-zero one
  is inserted as given and must be fresh; a zero creation time is filled from the clock.
  The struct is updated with the stored values.
\<close>

definition DB_Create_Question ::
  "bool \<Rightarrow> nat \<Rightarrow> Question \<Rightarrow> DB \<Rightarrow> error option \<times> Question \<times> DB" where
  "DB_Create_Question fail clock q db =
     (if fail then (Some ErrStorage, q, db)
      else if qID q = 0 then
        (let q' = q\<lparr>qID := questions_id_seq db,
                    qCreatedAt := autoCreateTime clock (qCreatedAt q)\<rparr>
         in (None, q',
             db\<lparr>questions := questions db @ [(qID q', qText q', qCreatedAt q')],
                questions_id_seq := questions_id_seq db + 1\<rparr>))
      else if qID q \<in> set (question_ids db) then (Some ErrStorage, q, db)
      else
        (let q' = q\<lparr>qCreatedAt := autoCreateTime clock (qCreatedAt q)\<rparr>
         in (None, q',
             db\<lparr>questions := questions db @ [(qID q', qText q', qCreatedAt q')]\<rparr>)))"

text \<open>\<open>DB.Find(&qs)\<close>: every row of \<open>questions\<close>; nothing is preloaded.\<close>

definition DB_Find_Questions :: "bool \<Rightarrow> DB \<Rightarrow> error + Question list" where
  "DB_Find_Questions fail db =
     (if fail then Inl ErrStorage else Inr (map scanQuestion (questions db)))"

text \<open>\<open>DB.First(&q, id)\<close>: the row with that primary key, or \<open>ErrRecordNotFound\<close>.\<close>

definition DB_First_Question :: "bool \<Rightarrow> int \<Rightarrow> DB \<Rightarrow> error + Question" where
  "DB_First_Question fail ident db =
     (if fail then Inl ErrStorage
      else case find (\<lambda>r. fst r = ident) (questions db) of
             None \<Rightarrow> Inl ErrRecordNotFound
           | Some r \<Rightarrow> Inr (scanQuestion r))"

text \<open>The second query of \<open>Preload("Answers")\<close>: the answers of the question found.\<close>

definition DB_Preload_Answers :: "bool \<Rightarrow> Question \<Rightarrow> DB \<Rightarrow> error + Question" where
  "DB_Preload_Answers fail q db =
     (if fail then Inl ErrStorage
      else Inr (q\<lparr>qAnswers := filter (\<lambda>a. aQuestionID a = qID q) (answers db)\<rparr>))"

text \<open>
  \<open>DB.Delete(&Question{}, id)\<close>: the rows with that primary key go, and the foreign key
  takes the answers of a deleted row with it. \<open>RowsAffected\<close> counts the question rows
  only; a failed statement affects none.
\<close>

definition DB_Delete_Question :: "bool \<Rightarrow> int \<Rightarrow> DB \<Rightarrow> Result \<times> DB" where
  "DB_Delete_Question fail ident db =
     (if fail then (\<lparr>RowsAffected = 0, Error = Some ErrStorage\<rparr>, db)
      else
        (let deleted = filter (\<lambda>r. fst r = ident) (questions db)
         in (\<lparr>RowsAffected = int (length deleted), Error = None\<rparr>,
             db\<lparr>questions := filter (\<lambda>r. fst r \<noteq> ident) (questions db),
                answers := filter (\<lambda>a. aQuestionID a \<notin> set (map fst deleted)) (answers db)\<rparr>)))"

text \<open>
  \<open>DB.Create\<close> of an answer: the foreign key rejects a \<open>question_id\<close> without a row; the
  primary key and the creation time are handled as for questions.
\<close>

definition DB_Create_Answer ::
  "bool \<Rightarrow> nat \<Rightarrow> Answer \<Rightarrow> DB \<Rightarrow> error option \<times> Answer \<times> DB" where
  "DB_Create_Answer fail clock a db =
     (if fail then (Some ErrStorage, a, db)
      else if aQuestionID a \<notin> set (question_ids db) then (Some ErrStorage, a, db)
      else if aID a = 0 then
        (let a' = a\<lparr>aID := answers_id_seq db,
                    aCreatedAt := autoCreateTime clock (aCreatedAt a)\<rparr>
         in (None, a',
             db\<lparr>answers := answers db @ [a'], answers_id_seq := answers_id_seq db + 1\<rparr>))
      else if aID a \<in> set (answer_ids db) then (Some ErrStorage, a, db)
      else
        (let a' = a\<lparr>aCreatedAt := autoCreateTime clock (aCreatedAt a)\<rparr>
         in (None, a', db\<lparr>answers := answers db @ [a']\<rparr>)))"

definition DB_First_Answer :: "bool \<Rightarrow> int \<Rightarrow> DB \<Rightarrow> error + Answer" where
  "DB_First_Answer fail ident db =
     (if fail then Inl ErrStorage
      else case find (\<lambda>a. aID a = ident) (answers db) of
             None \<Rightarrow> Inl ErrRecordNotFound
           | Some a \<Rightarrow> Inr a)"

definition DB_Delete_Answer :: "bool \<Rightarrow> int \<Rightarrow> DB \<Rightarrow> Result \<times> DB" where
  "DB_Delete_Answer fail ident db =
     (if fail then (\<lparr>RowsAffected = 0, Error = Some ErrStorage\<rparr>, db)
      else (\<lparr>RowsAffected = int (length (filter (\<lambda>a. aID a = ident) (answers db))), Error = None\<rparr>,
            db\<lparr>answers := filter (\<lambda>a. aID a \<noteq> ident) (answers db)\<rparr>))"

section \<open>Repository layer\<close>

definition CreateQuestion :: "Env \<Rightarrow> Question \<Rightarrow> DB \<Rightarrow> error option \<times> Question \<times> DB" where
  "CreateQuestion env q db = DB_Create_Question (fails env 0) (now env) q db"

definition GetAllQuestions :: "Env \<Rightarrow> DB \<Rightarrow> error + Question list" where
  "GetAllQuestions env db = DB_Find_Questions (fails env 0) db"

definition GetQuestionWithAnswers :: "Env \<Rightarrow> int \<Rightarrow> DB \<Rightarrow> error + Question" where
  "GetQuestionWithAnswers env ident db =
     (case DB_First_Question (fails env 0) ident db of
        Inl err \<Rightarrow> Inl err
      | Inr q \<Rightarrow> DB_Preload_Answers (fails env 1) q db)"

definition DeleteQuestion :: "Env \<Rightarrow> int \<Rightarrow> DB \<Rightarrow> error option \<times> DB" where
  "DeleteQuestion env ident db =
     (case DB_Delete_Question (fails env 0) ident db of
        (res, db') \<Rightarrow>
          if RowsAffected res = 0 then (Some ErrRecordNotFound, db')
          else (Error res, db'))"

definition CreateAnswer :: "Env \<Rightarrow> Answer \<Rightarrow> DB \<Rightarrow> error option \<times> Answer \<times> DB" where
  "CreateAnswer env a db =
     (case DB_First_Question (fails env 0) (aQuestionID a) db of
        Inl err \<Rightarrow> (Some err, a, db)
      | Inr q \<Rightarrow> DB_Create_Answer (fails env 1) (now env) a db)"

definition GetAnswer :: "Env \<Rightarrow> int \<Rightarrow> DB \<Rightarrow> error + Answer" where
  "GetAnswer env ident db = DB_First_Answer (fails env 0) ident db"

definition DeleteAnswer :: "Env \<Rightarrow> int \<Rightarrow> DB \<Rightarrow> error option \<times> DB" where
  "DeleteAnswer env ident db =
     (case DB_Delete_Answer (fails env 0) ident db of
        (res, db') \<Rightarrow>
          if RowsAffected res = 0 then (Some ErrRecordNotFound, db')
          else (Error res, db'))"

section \<open>Requests, responses and the JSON decoder\<close>

datatype json =
    JNull
  | JBool bool
  | JNumber string
  | JString string
  | JArray "json list"
  | JObject "(string \<times> json) list"

text \<open>
  A request as the handlers read it: the method, \<open>URL.Path\<close>, and the first JSON value
  of the body (\<open>None\<close> when the body holds no well-formed JSON value).
\<close>

record Request =
  Method :: string
  Path :: string
  Body :: "json option"

datatype payload =
    NoBody
  | PlainText string
  | QuestionJSON Question
  | QuestionsJSON "Question list"
  | AnswerJSON Answer

record Response =
  StatusCode :: nat
  Payload :: payload

definition MethodGet :: string where "MethodGet = ''GET''"
definition MethodPost :: string where "MethodPost = ''POST''"
definition MethodDelete :: string where "MethodDelete = ''DELETE''"

definition StatusOK :: nat where "StatusOK = 200"
definition StatusCreated :: nat where "StatusCreated = 201"
definition StatusNoContent :: nat where "StatusNoContent = 204"
definition StatusBadRequest :: nat where "StatusBadRequest = 400"
definition StatusNotFound :: nat where "StatusNotFound = 404"
definition StatusMethodNotAllowed :: nat where "StatusMethodNotAllowed = 405"
definition StatusInternalServerError :: nat where "StatusInternalServerError = 500"

text \<open>\<open>http.Error\<close> writes the status and the message followed by a newline.\<close>

definition http_Error :: "string \<Rightarrow> nat \<Rightarrow> Response" where
  "http_Error msg code = \<lparr>StatusCode = code, Payload = PlainText (msg @ [CHR 0x0A])\<rparr>"

definition http_NotFound :: Response where
  "http_NotFound = http_Error ''404 page not found'' StatusNotFound"

text \<open>
  \<open>encoding/json\<close> decoding an object into a struct of string fields. A key selects the
  field of that exact name, else the field whose name is equal under case folding; keys
  that select no field are skipped. A string value is stored, \<open>null\<close> leaves the field
  as it is, any other value is a type error. \<open>foldName\<close> upper-cases ASCII letters and
  maps the two non-ASCII characters that fold to ASCII letters (the long s and the Kelvin
  sign, in UTF-8); other bytes stay, which decides equality with an ASCII field name as the
  library does.
\<close>

fun foldName :: "string \<Rightarrow> string" where
  "foldName [] = []"
| "foldName (c # cs) =
     (if 97 \<le> (of_char c :: nat) \<and> (of_char c :: nat) \<le> 122
        then char_of ((of_char c :: nat) - 32) # foldName cs
      else if c = CHR 0xC5 \<and> take 1 cs = [CHR 0xBF]
        then CHR ''S'' # foldName (drop 1 cs)
      else if c = CHR 0xE2 \<and> take 2 cs = [CHR 0x84, CHR 0xAA]
        then CHR ''K'' # foldName (drop 2 cs)
      else c # foldName cs)"

definition fieldFor :: "string list \<Rightarrow> string \<Rightarrow> string option" where
  "fieldFor names key =
     (case find (\<lambda>n. n = key) names of
        Some n \<Rightarrow> Some n
      | None \<Rightarrow> find (\<lambda>n. foldName n = foldName key) names)"

fun decodeObject ::
  "string list \<Rightarrow> (string \<times> json) list \<Rightarrow> (string \<Rightarrow> string) \<Rightarrow> (string \<Rightarrow> string) option" where
  "decodeObject names [] acc = Some acc"
| "decodeObject names (kv # kvs) acc =
     (case fieldFor names (fst kv) of
        None \<Rightarrow> decodeObject names kvs acc
      | Some n \<Rightarrow>
          (case snd kv of
             JString s \<Rightarrow> decodeObject names kvs (acc(n := s))
           | JNull \<Rightarrow> decodeObject names kvs acc
           | _ \<Rightarrow> None))"

text \<open>
  \<open>json.NewDecoder(r.Body).Decode(&req)\<close> for a struct whose fields (all strings, all
  starting empty) have the given JSON names.
\<close>

definition Decode :: "string list \<Rightarrow> json option \<Rightarrow> (string \<Rightarrow> string) option" where
  "Decode names body =
     (case body of
        None \<Rightarrow> None
      | Some JNull \<Rightarrow> Some (\<lambda>_. [])
      | Some (JObject kvs) \<Rightarrow> decodeObject names kvs (\<lambda>_. [])
      | Some _ \<Rightarrow> None)"

section \<open>Handlers\<close>

definition CreateQuestionHandler :: "Request \<Rightarrow> Env \<Rightarrow> DB \<Rightarrow> Response \<times> DB" where
  "CreateQuestionHandler r env db =
     (case Decode [''text''] (Body r) of
        None \<Rightarrow> (http_Error ''bad request'' StatusBadRequest, db)
      | Some req \<Rightarrow>
          (let q = \<lparr>qID = 0, qText = req ''text'', qCreatedAt = ZeroTime, qAnswers = []\<rparr>
           in case CreateQuestion env q db of
                (Some err, q', db') \<Rightarrow> (http_Error ''internal'' StatusInternalServerError, db')
              | (None, q', db') \<Rightarrow>
                  (\<lparr>StatusCode = StatusCreated, Payload = QuestionJSON q'\<rparr>, db')))"

definition GetAllQuestionsHandler :: "Request \<Rightarrow> Env \<Rightarrow> DB \<Rightarrow> Response \<times> DB" where
  "GetAllQuestionsHandler r env db =
     (case GetAllQuestions env db of
        Inl err \<Rightarrow> (http_Error ''internal'' StatusInternalServerError, db)
      | Inr qs \<Rightarrow> (\<lparr>StatusCode = StatusOK, Payload = QuestionsJSON qs\<rparr>, db))"

definition GetQuestionHandler :: "Request \<Rightarrow> Env \<Rightarrow> DB \<Rightarrow> Response \<times> DB" where
  "GetQuestionHandler r env db =
     (let idStr = TrimPrefix (Path r) ''/questions/''
      in case Atoi idStr of
           None \<Rightarrow> (http_Error ''bad id'' StatusBadRequest, db)
         | Some ident \<Rightarrow>
             (case GetQuestionWithAnswers env ident db of
                Inl err \<Rightarrow> (http_Error ''not found'' StatusNotFound, db)
              | Inr q \<Rightarrow> (\<lparr>StatusCode = StatusOK, Payload = QuestionJSON q\<rparr>, db)))"

definition DeleteQuestionHandler :: "Request \<Rightarrow> Env \<Rightarrow> DB \<Rightarrow> Response \<times> DB" where
  "DeleteQuestionHandler r env db =
     (let idStr = TrimPrefix (Path r) ''/questions/''
      in case Atoi idStr of
           None \<Rightarrow> (http_Error ''bad id'' StatusBadRequest, db)
         | Some ident \<Rightarrow>
             (case DeleteQuestion env ident db of
                (Some err, db') \<Rightarrow> (http_Error ''not found'' StatusNotFound, db')
              | (None, db') \<Rightarrow> (\<lparr>StatusCode = StatusNoContent, Payload = NoBody\<rparr>, db')))"

definition CreateAnswerHandler :: "Request \<Rightarrow> Env \<Rightarrow> DB \<Rightarrow> Response \<times> DB" where
  "CreateAnswerHandler r env db =
     (let path = TrimPrefix (Path r) ''/questions/'';
          parts = Split path CHR ''/''
      in if length parts < 2 \<or> parts ! 1 \<noteq> ''answers''
           then (http_Error ''bad path'' StatusBadRequest, db)
         else case Atoi (parts ! 0) of
           None \<Rightarrow> (http_Error ''bad id'' StatusBadRequest, db)
         | Some ident \<Rightarrow>
             (case Decode [''user_id'', ''text''] (Body r) of
                None \<Rightarrow> (http_Error ''bad request'' StatusBadRequest, db)
              | Some req \<Rightarrow>
                  (let a = \<lparr>aID = 0, aQuestionID = ident, aUserID = req ''user_id'',
                            aText = req ''text'', aCreatedAt = ZeroTime\<rparr>
                   in case CreateAnswer env a db of
                        (Some err, a', db') \<Rightarrow>
                          (http_Error ''question not found'' StatusBadRequest, db')
                      | (None, a', db') \<Rightarrow>
                          (\<lparr>StatusCode = StatusCreated, Payload = AnswerJSON a'\<rparr>, db'))))"

definition GetAnswerHandler :: "Request \<Rightarrow> Env \<Rightarrow> DB \<Rightarrow> Response \<times> DB" where
  "GetAnswerHandler r env db =
     (let idStr = TrimPrefix (Path r) ''/answers/''
      in case Atoi idStr of
           None \<Rightarrow> (http_Error ''bad id'' StatusBadRequest, db)
         | Some ident \<Rightarrow>
             (case GetAnswer env ident db of
                Inl err \<Rightarrow> (http_Error ''not found'' StatusNotFound, db)
              | Inr a \<Rightarrow> (\<lparr>StatusCode = StatusOK, Payload = AnswerJSON a\<rparr>, db)))"

definition DeleteAnswerHandler :: "Request \<Rightarrow> Env \<Rightarrow> DB \<Rightarrow> Response \<times> DB" where
  "DeleteAnswerHandler r env db =
     (let idStr = TrimPrefix (Path r) ''/answers/''
      in case Atoi idStr of
           None \<Rightarrow> (http_Error ''bad id'' StatusBadRequest, db)
         | Some ident \<Rightarrow>
             (case DeleteAnswer env ident db of
                (Some err, db') \<Rightarrow> (http_Error ''not found'' StatusNotFound, db')
              | (None, db') \<Rightarrow> (\<lparr>StatusCode = StatusNoContent, Payload = NoBody\<rparr>, db')))"

section \<open>Router\<close>

text \<open>
  The two functions registered on the multiplexer, for the patterns \<open>/questions/\<close> and
  \<open>/answers/\<close>. The multiplexer hands a request to the function whose pattern is a prefix
  of its path.
\<close>

definition questionsRoute :: "Request \<Rightarrow> Env \<Rightarrow> DB \<Rightarrow> Response \<times> DB" where
  "questionsRoute r env db =
     (if Method r = MethodPost \<and> HasSuffix (Path r) ''/answers''
        then CreateAnswerHandler r env db
      else if Method r = MethodGet \<and> (Path r = ''/questions/'' \<or> Path r = ''/questions'')
        then GetAllQuestionsHandler r env db
      else if Method r = MethodPost \<and> (Path r = ''/questions/'' \<or> Path r = ''/questions'')
        then CreateQuestionHandler r env db
      else if Method r = MethodGet then GetQuestionHandler r env db
      else if Method r = MethodDelete then DeleteQuestionHandler r env db
      else (http_NotFound, db))"

definition answersRoute :: "Request \<Rightarrow> Env \<Rightarrow> DB \<Rightarrow> Response \<times> DB" where
  "answersRoute r env db =
     (if Method r = MethodGet then GetAnswerHandler r env db
      else if Method r = MethodDelete then DeleteAnswerHandler r env db
      else (http_Error ''method not allowed'' StatusMethodNotAllowed, db))"

text \<open>
  The store states the service can be in: the empty store after migration, and whatever a
  request to either route leaves behind, whatever the clock and the storage faults.
\<close>

inductive reachable :: "DB \<Rightarrow> bool" where
  reachable_empty: "reachable emptyDB"
| reachable_questions: "reachable db \<Longrightarrow> snd (questionsRoute r env db) = db' \<Longrightarrow> reachable db'"
| reachable_answers: "reachable db \<Longrightarrow> snd (answersRoute r env db) = db' \<Longrightarrow> reachable db'"

section \<open>Sample data\<close>

text \<open>
  Environments in which no database call fails, or every one does, and a store holding
  one question with one answer.
\<close>

definition noFaults :: "nat \<Rightarrow> bool" where
  "noFaults k = False"

definition allFaults :: "nat \<Rightarrow> bool" where
  "allFaults k = True"

definition env0 :: Env where
  "env0 = \<lparr>now = 3, fails = noFaults\<rparr>"

definition envDown :: Env where
  "envDown = \<lparr>now = 3, fails = allFaults\<rparr>"

definition sampleDB :: DB where
  "sampleDB =
     \<lparr>questions = [(1, ''Why?'', Instant 1)],
      answers = [\<lparr>aID = 1, aQuestionID = 1, aUserID = ''u1'', aText = ''Because'',
                  aCreatedAt = Instant 2\<rparr>],
      questions_id_seq = 2, answers_id_seq = 2\<rparr>"

section \<open>Well-formed stores and request sequences\<close>

text \<open>
  The constraints the schema keeps: primary keys are unique, were handed out by the
  sequence (so they lie below its next value), and every answer's \<open>question_id\<close> has a
  question row.
\<close>

definition consistent :: "DB \<Rightarrow> bool" where
  "consistent db =
     (distinct (question_ids db)
      \<and> (\<forall>i \<in> set (question_ids db). 1 \<le> i \<and> i < questions_id_seq db)
      \<and> 1 \<le> questions_id_seq db
      \<and> distinct (answer_ids db)
      \<and> (\<forall>i \<in> set (answer_ids db). 1 \<le> i \<and> i < answers_id_seq db)
      \<and> 1 \<le> answers_id_seq db
      \<and> (\<forall>a \<in> set (answers db). aQuestionID a \<in> set (question_ids db)))"

text \<open>
  A call of one of the two registered functions, and the run of a sequence of calls: the
  responses in order and the store at the end.
\<close>

datatype call = ToQuestions Request Env | ToAnswers Request Env

fun callMethod :: "call \<Rightarrow> string" where
  "callMethod (ToQuestions r env) = Method r"
| "callMethod (ToAnswers r env) = Method r"

fun serve :: "call \<Rightarrow> DB \<Rightarrow> Response \<times> DB" where
  "serve (ToQuestions r env) db = questionsRoute r env db"
| "serve (ToAnswers r env) db = answersRoute r env db"

fun run :: "call list \<Rightarrow> DB \<Rightarrow> Response list \<times> DB" where
  "run [] db = ([], db)"
| "run (c # cs) db =
     (case serve c db of
        (resp, db') \<Rightarrow> (case run cs db' of (resps, db'') \<Rightarrow> (resp # resps, db'')))"

text \<open>What answer creation does once the path and the body have been read.\<close>

abbreviation insertAnswer :: "Env \<Rightarrow> Answer \<Rightarrow> DB \<Rightarrow> Response \<times> DB" where
  "insertAnswer env a db \<equiv>
     (case CreateAnswer env a db of
        (Some err, a', db') \<Rightarrow> (http_Error ''question not found'' StatusBadRequest, db')
      | (None, a', db') \<Rightarrow> (\<lparr>StatusCode = StatusCreated, Payload = AnswerJSON a'\<rparr>, db'))"

text \<open>How one call changes the table of answers.\<close>

definition answers_step :: "DB \<Rightarrow> DB \<Rightarrow> bool" where
  "answers_step db db' =
     (answers_id_seq db \<le> answers_id_seq db'
      \<and> (\<forall>a \<in> set (answers db').
            a \<in> set (answers db)
            \<or> (aID a = answers_id_seq db \<and> aQuestionID a \<in> set (question_ids db))))"

text \<open>A response that reports a created question.\<close>

definition created :: "Response \<Rightarrow> bool" where
  "created resp =
     (StatusCode resp = 201 \<and> (case Payload resp of QuestionJSON q \<Rightarrow> True | _ \<Rightarrow> False))"

text \<open>The two calls that build the sample store from the empty one.\<close>

definition sampleCalls :: "call list" where
  "sampleCalls =
     [ToQuestions \<lparr>Method = MethodPost, Path = ''/questions/'',
                   Body = Some (JObject [(''text'', JString ''Why?'')])\<rparr>
                  \<lparr>now = 1, fails = noFaults\<rparr>,
      ToQuestions \<lparr>Method = MethodPost, Path = ''/questions/1/answers'',
                   Body = Some (JObject [(''user_id'', JString ''u1''),
                                         (''text'', JString ''Because'')])\<rparr>
                  \<lparr>now = 2, fails = noFaults\<rparr>]"

section \<open>Facts about the helpers\<close>

lemma TrimPrefix_append: "TrimPrefix (p @ s) p = s"
  by (simp add: TrimPrefix_def HasPrefix_def)

lemma HasSuffix_append: "HasSuffix (p @ s) s"
  by (simp add: HasSuffix_def)

lemma Atoi_nonempty: "Atoi s = Some i \<Longrightarrow> s \<noteq> []"
  by (auto simp: Atoi_def)

lemma isDigit_not_slash: "isDigit c \<Longrightarrow> c \<noteq> CHR ''/''"
  by (auto simp: isDigit_def)

lemma Atoi_no_slash: "Atoi s = Some i \<Longrightarrow> CHR ''/'' \<notin> set s"
proof -
  assume a: "Atoi s = Some i"
  let ?ds = "if s \<noteq> [] \<and> (hd s = CHR ''-'' \<or> hd s = CHR ''+'') then tl s else s"
  from a have d: "list_all isDigit ?ds"
    by (simp add: Atoi_def Let_def split: if_splits)
  show ?thesis
  proof (cases s)
    case Nil then show ?thesis by simp
  next
    case (Cons c cs)
    with d show ?thesis
      by (auto simp: list_all_iff isDigit_def split: if_splits)
  qed
qed

lemma Split_nonempty: "Split s sep \<noteq> []"
  by (induction s) auto

lemma Split_no_sep: "sep \<notin> set s \<Longrightarrow> Split s sep = [s]"
  by (induction s) auto

lemma Split_append_sep: "sep \<notin> set s \<Longrightarrow> Split (s @ sep # t) sep = s # Split t sep"
  by (induction s) auto

lemma Split_id_answers:
  "CHR ''/'' \<notin> set s \<Longrightarrow> Split (s @ ''/answers'') CHR ''/'' = [s, ''answers'']"
  using Split_append_sep [of "CHR ''/''" s "''answers''"] by simp

lemma methods_distinct:
  "MethodGet \<noteq> MethodPost" "MethodGet \<noteq> MethodDelete" "MethodPost \<noteq> MethodDelete"
  "MethodPost \<noteq> MethodGet" "MethodDelete \<noteq> MethodGet" "MethodDelete \<noteq> MethodPost"
  by (simp_all add: MethodGet_def MethodPost_def MethodDelete_def)

lemma find_fst_absent: "i \<notin> set (map fst xs) \<Longrightarrow> find (\<lambda>r. fst r = i) xs = None"
  by (force simp: find_None_iff)

lemma DB_First_Question_absent:
  "ident \<notin> set (question_ids db) \<Longrightarrow> \<exists>e. DB_First_Question f ident db = Inl e"
  by (simp add: DB_First_Question_def question_ids_def find_fst_absent)


lemma status_simps:
  "StatusCode (http_Error m c) = c" "StatusCode http_NotFound = 404"
  by (simp_all add: http_Error_def http_NotFound_def StatusNotFound_def)

lemmas status_defs = StatusOK_def StatusCreated_def StatusNoContent_def StatusBadRequest_def
  StatusNotFound_def StatusMethodNotAllowed_def StatusInternalServerError_def

lemma CreateAnswer_questions:
  "CreateAnswer env a db = (e, a', db') \<Longrightarrow> questions db' = questions db"
  by (auto simp: CreateAnswer_def DB_Create_Answer_def Let_def split: sum.splits if_splits)

lemma CreateAnswerHandler_questions:
  "questions (snd (CreateAnswerHandler r env db)) = questions db"
  by (auto simp: CreateAnswerHandler_def Let_def split: option.splits prod.splits
      dest: CreateAnswer_questions)

lemma CreateAnswerHandler_status:
  "StatusCode (fst (CreateAnswerHandler r env db)) = 201
   \<or> StatusCode (fst (CreateAnswerHandler r env db)) = 400"
  by (auto simp: CreateAnswerHandler_def Let_def status_simps status_defs
      split: option.splits prod.splits)


lemma find_fst_present:
  "i \<in> set (map fst xs) \<Longrightarrow> \<exists>r. find (\<lambda>r. fst r = i) xs = Some r \<and> fst r = i \<and> r \<in> set xs"
  by (induction xs) auto

lemma find_aID_absent: "i \<notin> set (map aID xs) \<Longrightarrow> find (\<lambda>a. aID a = i) xs = None"
  by (force simp: find_None_iff)

lemma filter_fst_absent: "i \<notin> set (map fst xs) \<Longrightarrow> filter (\<lambda>r. fst r = i) xs = []"
  by (induction xs) auto

lemma filter_aID_absent: "i \<notin> set (map aID xs) \<Longrightarrow> filter (\<lambda>a. aID a = i) xs = []"
  by (induction xs) auto

lemma DeleteQuestion_absent:
  "ident \<notin> set (question_ids db) \<Longrightarrow> fst (DeleteQuestion env ident db) = Some ErrRecordNotFound"
  by (simp add: DeleteQuestion_def DB_Delete_Question_def question_ids_def filter_fst_absent
      Let_def)

lemma DeleteAnswer_absent:
  "ident \<notin> set (answer_ids db) \<Longrightarrow> fst (DeleteAnswer env ident db) = Some ErrRecordNotFound"
  by (simp add: DeleteAnswer_def DB_Delete_Answer_def answer_ids_def filter_aID_absent)

lemma GetQuestionWithAnswers_absent:
  "ident \<notin> set (question_ids db) \<Longrightarrow> \<exists>e. GetQuestionWithAnswers env ident db = Inl e"
  using DB_First_Question_absent [of ident db "fails env 0"]
  by (auto simp: GetQuestionWithAnswers_def)

lemma GetAnswer_absent:
  "ident \<notin> set (answer_ids db) \<Longrightarrow> \<exists>e. GetAnswer env ident db = Inl e"
  by (simp add: GetAnswer_def DB_First_Answer_def answer_ids_def find_aID_absent)

lemma GetQuestionHandler_error:
  "Atoi (TrimPrefix (Path r) ''/questions/'') = Some ident \<Longrightarrow>
   GetQuestionWithAnswers env ident db = Inl e \<Longrightarrow>
   GetQuestionHandler r env db = (http_Error ''not found'' StatusNotFound, db)"
  by (simp add: GetQuestionHandler_def)

lemma DeleteQuestionHandler_error:
  "Atoi (TrimPrefix (Path r) ''/questions/'') = Some ident \<Longrightarrow>
   fst (DeleteQuestion env ident db) = Some e \<Longrightarrow>
   StatusCode (fst (DeleteQuestionHandler r env db)) = 404"
  by (cases "DeleteQuestion env ident db")
     (simp add: DeleteQuestionHandler_def status_simps status_defs)

lemma GetAnswerHandler_error:
  "Atoi (TrimPrefix (Path r) ''/answers/'') = Some ident \<Longrightarrow>
   GetAnswer env ident db = Inl e \<Longrightarrow>
   GetAnswerHandler r env db = (http_Error ''not found'' StatusNotFound, db)"
  by (simp add: GetAnswerHandler_def)

lemma DeleteAnswerHandler_error:
  "Atoi (TrimPrefix (Path r) ''/answers/'') = Some ident \<Longrightarrow>
   fst (DeleteAnswer env ident db) = Some e \<Longrightarrow>
   StatusCode (fst (DeleteAnswerHandler r env db)) = 404"
  by (cases "DeleteAnswer env ident db")
     (simp add: DeleteAnswerHandler_def status_simps status_defs)

lemma route_get_question:
  "Atoi idStr = Some ident \<Longrightarrow>
   questionsRoute \<lparr>Method = MethodGet, Path = ''/questions/'' @ idStr, Body = b\<rparr> env db
     = GetQuestionHandler \<lparr>Method = MethodGet, Path = ''/questions/'' @ idStr, Body = b\<rparr> env db"
  using Atoi_nonempty [of idStr ident] methods_distinct
  by (simp add: questionsRoute_def)

lemma route_delete_question:
  "questionsRoute \<lparr>Method = MethodDelete, Path = ''/questions/'' @ idStr, Body = b\<rparr> env db
     = DeleteQuestionHandler \<lparr>Method = MethodDelete, Path = ''/questions/'' @ idStr, Body = b\<rparr>
         env db"
  using methods_distinct by (simp add: questionsRoute_def)

lemma route_get_answer:
  "answersRoute \<lparr>Method = MethodGet, Path = p, Body = b\<rparr> env db
     = GetAnswerHandler \<lparr>Method = MethodGet, Path = p, Body = b\<rparr> env db"
  by (simp add: answersRoute_def)

lemma route_delete_answer:
  "answersRoute \<lparr>Method = MethodDelete, Path = p, Body = b\<rparr> env db
     = DeleteAnswerHandler \<lparr>Method = MethodDelete, Path = p, Body = b\<rparr> env db"
  using methods_distinct by (simp add: answersRoute_def)


lemma route_list_questions:
  "questionsRoute \<lparr>Method = MethodGet, Path = ''/questions/'', Body = b\<rparr> env db
     = GetAllQuestionsHandler \<lparr>Method = MethodGet, Path = ''/questions/'', Body = b\<rparr> env db"
  using methods_distinct by (simp add: questionsRoute_def HasSuffix_def)

lemma route_create_question:
  "questionsRoute \<lparr>Method = MethodPost, Path = ''/questions/'', Body = b\<rparr> env db
     = CreateQuestionHandler \<lparr>Method = MethodPost, Path = ''/questions/'', Body = b\<rparr> env db"
  using methods_distinct by (simp add: questionsRoute_def HasSuffix_def)

lemma route_create_answer:
  "questionsRoute \<lparr>Method = MethodPost, Path = ''/questions/'' @ idStr @ ''/answers'', Body = b\<rparr>
       env db
     = CreateAnswerHandler
         \<lparr>Method = MethodPost, Path = ''/questions/'' @ idStr @ ''/answers'', Body = b\<rparr> env db"
  using HasSuffix_append [of "''/questions/'' @ idStr" "''/answers''"]
  by (simp add: questionsRoute_def)

lemma CreateAnswerHandler_reaches_store:
  assumes "Atoi idStr = Some ident" and "Decode [''user_id'', ''text''] b = Some req"
  shows "CreateAnswerHandler
           \<lparr>Method = m, Path = ''/questions/'' @ idStr @ ''/answers'', Body = b\<rparr> env db
         = (case CreateAnswer env
                   \<lparr>aID = 0, aQuestionID = ident, aUserID = req ''user_id'',
                     aText = req ''text'', aCreatedAt = ZeroTime\<rparr> db of
              (Some err, a', db') \<Rightarrow> (http_Error ''question not found'' StatusBadRequest, db')
            | (None, a', db') \<Rightarrow> (\<lparr>StatusCode = StatusCreated, Payload = AnswerJSON a'\<rparr>, db'))"
proof -
  have trim: "TrimPrefix (''/questions/'' @ idStr @ ''/answers'') ''/questions/''
      = idStr @ ''/answers''"
    by (rule TrimPrefix_append)
  have parts: "Split (idStr @ ''/answers'') CHR ''/'' = [idStr, ''answers'']"
    using Split_id_answers Atoi_no_slash [OF assms(1)] by simp
  show ?thesis
    by (simp add: CreateAnswerHandler_def trim parts assms del: append.simps)
qed

section \<open>The invariant of the store\<close>

lemma consistent_empty: "consistent emptyDB"
  by (simp add: consistent_def emptyDB_def question_ids_def answer_ids_def)

lemma deleted_ids:
  "set (map fst (filter (\<lambda>r. fst r = i) qs)) = (if i \<in> set (map fst qs) then {i} else {})"
proof (cases "i \<in> set (map fst qs)")
  case True
  then obtain r where "r \<in> set qs" "fst r = i" by auto
  then have "i \<in> set (map fst (filter (\<lambda>r. fst r = i) qs))" by force
  moreover have "set (map fst (filter (\<lambda>r. fst r = i) qs)) \<subseteq> {i}" by auto
  ultimately show ?thesis using True by auto
next
  case False
  then have "filter (\<lambda>r. fst r = i) qs = []" by (auto simp: filter_empty_conv)
  with False show ?thesis by simp
qed

lemma kept_ids: "map fst (filter (\<lambda>r. fst r \<noteq> i) qs) = filter (\<lambda>k. k \<noteq> i) (map fst qs)"
  by (induction qs) auto

lemma kept_answer_ids:
  "map aID (filter (\<lambda>a. aID a \<noteq> i) xs) = filter (\<lambda>k. k \<noteq> i) (map aID xs)"
  by (induction xs) auto

lemma CreateQuestion_effect:
  assumes "qID q = 0" and "CreateQuestion env q db = (e, q', db')"
  shows "(e = Some ErrStorage \<and> db' = db \<and> fails env 0)
       \<or> (e = None \<and> \<not> fails env 0
          \<and> q' = q\<lparr>qID := questions_id_seq db,
                    qCreatedAt := autoCreateTime (now env) (qCreatedAt q)\<rparr>
          \<and> db' = db\<lparr>questions := questions db @ [(qID q', qText q', qCreatedAt q')],
                      questions_id_seq := questions_id_seq db + 1\<rparr>)"
  using assms
  by (auto simp: CreateQuestion_def DB_Create_Question_def Let_def split: if_splits)

lemma CreateAnswer_effect:
  assumes "aID a = 0" and "CreateAnswer env a db = (e, a', db')"
  shows "(e \<noteq> None \<and> db' = db)
       \<or> (e = None \<and> aQuestionID a \<in> set (question_ids db)
          \<and> a' = a\<lparr>aID := answers_id_seq db,
                    aCreatedAt := autoCreateTime (now env) (aCreatedAt a)\<rparr>
          \<and> db' = db\<lparr>answers := answers db @ [a'],
                      answers_id_seq := answers_id_seq db + 1\<rparr>)"
  using assms
  by (auto simp: CreateAnswer_def DB_Create_Answer_def DB_First_Question_def Let_def
      split: if_splits sum.splits option.splits)

lemma DeleteQuestion_effect:
  assumes "DeleteQuestion env i db = (e, db')"
  shows "(e = Some ErrRecordNotFound \<and> db' = db
            \<and> (fails env 0 \<or> i \<notin> set (question_ids db)))
       \<or> (e = None \<and> \<not> fails env 0 \<and> i \<in> set (question_ids db)
          \<and> db' = db\<lparr>questions := filter (\<lambda>r. fst r \<noteq> i) (questions db),
                      answers := filter (\<lambda>a. aQuestionID a \<noteq> i) (answers db)\<rparr>)"
proof (cases "fails env 0")
  case True
  with assms show ?thesis by (auto simp: DeleteQuestion_def DB_Delete_Question_def)
next
  case False
  show ?thesis
  proof (cases "i \<in> set (question_ids db)")
    case True
    then have ne: "filter (\<lambda>r. fst r = i) (questions db) \<noteq> []"
      by (auto simp: question_ids_def filter_empty_conv)
    have del: "set (map fst (filter (\<lambda>r. fst r = i) (questions db))) = {i}"
      using True by (simp only: deleted_ids question_ids_def if_True)
    from assms False True ne show ?thesis
      by (simp add: DeleteQuestion_def DB_Delete_Question_def Let_def del del: set_map set_filter)
  next
    case absent: False
    then have e: "filter (\<lambda>r. fst r = i) (questions db) = []"
      by (auto simp: question_ids_def filter_empty_conv)
    have k: "filter (\<lambda>r. fst r \<noteq> i) (questions db) = questions db"
      using absent by (auto simp: question_ids_def filter_id_conv)
    from assms False absent show ?thesis
      by (auto simp: DeleteQuestion_def DB_Delete_Question_def Let_def e k)
  qed
qed

lemma DeleteAnswer_effect:
  assumes "DeleteAnswer env i db = (e, db')"
  shows "(e = Some ErrRecordNotFound \<and> db' = db
            \<and> (fails env 0 \<or> i \<notin> set (answer_ids db)))
       \<or> (e = None \<and> \<not> fails env 0 \<and> i \<in> set (answer_ids db)
          \<and> db' = db\<lparr>answers := filter (\<lambda>a. aID a \<noteq> i) (answers db)\<rparr>)"
proof (cases "fails env 0")
  case True
  with assms show ?thesis by (auto simp: DeleteAnswer_def DB_Delete_Answer_def)
next
  case False
  show ?thesis
  proof (cases "i \<in> set (answer_ids db)")
    case True
    then have ne: "filter (\<lambda>a. aID a = i) (answers db) \<noteq> []"
      by (auto simp: answer_ids_def filter_empty_conv)
    from assms False True ne show ?thesis
      by (simp add: DeleteAnswer_def DB_Delete_Answer_def)
  next
    case absent: False
    then have e: "filter (\<lambda>a. aID a = i) (answers db) = []"
      by (auto simp: answer_ids_def filter_empty_conv)
    have k: "filter (\<lambda>a. aID a \<noteq> i) (answers db) = answers db"
      using absent by (auto simp: answer_ids_def filter_id_conv)
    from assms False absent show ?thesis
      by (auto simp: DeleteAnswer_def DB_Delete_Answer_def e k)
  qed
qed

lemma ids_simps:
  "question_ids (db\<lparr>questions := qs\<rparr>) = map fst qs"
  "question_ids (db\<lparr>answers := xs\<rparr>) = question_ids db"
  "question_ids (db\<lparr>questions_id_seq := n\<rparr>) = question_ids db"
  "question_ids (db\<lparr>answers_id_seq := n\<rparr>) = question_ids db"
  "answer_ids (db\<lparr>answers := xs\<rparr>) = map aID xs"
  "answer_ids (db\<lparr>questions := qs\<rparr>) = answer_ids db"
  "answer_ids (db\<lparr>questions_id_seq := n\<rparr>) = answer_ids db"
  "answer_ids (db\<lparr>answers_id_seq := n\<rparr>) = answer_ids db"
  by (simp_all add: question_ids_def answer_ids_def)

lemma consistent_insert_question:
  assumes "consistent db"
  shows "consistent (db\<lparr>questions := questions db @ [(questions_id_seq db, t, c)],
               questions_id_seq := questions_id_seq db + 1\<rparr>)"
proof -
  have fresh: "questions_id_seq db \<notin> set (question_ids db)"
    using assms by (auto simp: consistent_def)
  have ids: "map fst (questions db) = question_ids db" by (simp add: question_ids_def)
  show ?thesis
    using assms fresh by (auto simp: consistent_def ids_simps ids)
qed

lemma consistent_insert_answer:
  assumes "consistent db" and "aQuestionID a \<in> set (question_ids db)" and "aID a = answers_id_seq db"
  shows "consistent (db\<lparr>answers := answers db @ [a], answers_id_seq := answers_id_seq db + 1\<rparr>)"
proof -
  have fresh: "answers_id_seq db \<notin> set (answer_ids db)"
    using assms(1) by (auto simp: consistent_def)
  have ids: "map aID (answers db) = answer_ids db" by (simp add: answer_ids_def)
  show ?thesis
    using assms fresh by (auto simp: consistent_def ids_simps ids)
qed

lemma consistent_delete_answer:
  assumes "consistent db"
  shows "consistent (db\<lparr>answers := filter (\<lambda>a. aID a \<noteq> i) (answers db)\<rparr>)"
proof -
  have ids: "map aID (answers db) = answer_ids db" by (simp add: answer_ids_def)
  show ?thesis
    using assms by (auto simp: consistent_def ids_simps kept_answer_ids ids)
qed

lemma consistent_delete_question:
  assumes "consistent db"
  shows "consistent (db\<lparr>questions := filter (\<lambda>r. fst r \<noteq> i) (questions db),
               answers := filter (\<lambda>a. aQuestionID a \<noteq> i) (answers db)\<rparr>)"
proof -
  have ids: "map fst (questions db) = question_ids db" by (simp add: question_ids_def)
  have aids: "map aID (filter (\<lambda>a. aQuestionID a \<noteq> i) (answers db))
      = map aID (filter (\<lambda>a. aQuestionID a \<noteq> i) (answers db))" by simp
  have d: "distinct (map aID (filter (\<lambda>a. aQuestionID a \<noteq> i) (answers db)))"
    using assms by (simp add: consistent_def answer_ids_def distinct_map_filter)
  have b: "\<forall>k \<in> set (map aID (filter (\<lambda>a. aQuestionID a \<noteq> i) (answers db))).
             1 \<le> k \<and> k < answers_id_seq db"
    using assms by (auto simp: consistent_def answer_ids_def)
  show ?thesis
    using assms d b by (auto simp: consistent_def ids_simps kept_ids ids simp del: set_map)
qed

lemma consistent_CreateQuestion:
  "consistent db \<Longrightarrow> qID q = 0 \<Longrightarrow> CreateQuestion env q db = (e, q', db') \<Longrightarrow> consistent db'"
  using CreateQuestion_effect [of q env db e q' db'] consistent_insert_question [of db]
  by auto

lemma consistent_CreateAnswer:
  "consistent db \<Longrightarrow> aID a = 0 \<Longrightarrow> CreateAnswer env a db = (e, a', db') \<Longrightarrow> consistent db'"
  using CreateAnswer_effect [of a env db e a' db'] consistent_insert_answer [of db a']
  by auto

lemma consistent_DeleteAnswer:
  "consistent db \<Longrightarrow> DeleteAnswer env i db = (e, db') \<Longrightarrow> consistent db'"
  using DeleteAnswer_effect [of env i db e db'] consistent_delete_answer [of db i]
  by auto

lemma consistent_DeleteQuestion:
  "consistent db \<Longrightarrow> DeleteQuestion env i db = (e, db') \<Longrightarrow> consistent db'"
  using DeleteQuestion_effect [of env i db e db'] consistent_delete_question [of db i]
  by auto

lemma consistent_CreateQuestionHandler:
  assumes "consistent db"
  shows "consistent (snd (CreateQuestionHandler r env db))"
proof (cases "Decode [''text''] (Body r)")
  case None
  with assms show ?thesis by (simp add: CreateQuestionHandler_def)
next
  case (Some req)
  let ?q = "\<lparr>qID = 0, qText = req ''text'', qCreatedAt = ZeroTime, qAnswers = []\<rparr>"
  obtain e q' db' where c: "CreateQuestion env ?q db = (e, q', db')"
    by (cases "CreateQuestion env ?q db") auto
  have "consistent db'" using consistent_CreateQuestion [OF assms _ c] by simp
  then show ?thesis
    by (cases e) (simp_all add: CreateQuestionHandler_def Some c)
qed

lemma consistent_DeleteQuestionHandler:
  assumes "consistent db"
  shows "consistent (snd (DeleteQuestionHandler r env db))"
proof (cases "Atoi (TrimPrefix (Path r) ''/questions/'')")
  case None
  with assms show ?thesis by (simp add: DeleteQuestionHandler_def)
next
  case (Some i)
  obtain e db' where c: "DeleteQuestion env i db = (e, db')"
    by (cases "DeleteQuestion env i db") auto
  have "consistent db'" using consistent_DeleteQuestion [OF assms c] .
  then show ?thesis
    by (cases e) (simp_all add: DeleteQuestionHandler_def Some c)
qed

lemma consistent_DeleteAnswerHandler:
  assumes "consistent db"
  shows "consistent (snd (DeleteAnswerHandler r env db))"
proof (cases "Atoi (TrimPrefix (Path r) ''/answers/'')")
  case None
  with assms show ?thesis by (simp add: DeleteAnswerHandler_def)
next
  case (Some i)
  obtain e db' where c: "DeleteAnswer env i db = (e, db')"
    by (cases "DeleteAnswer env i db") auto
  have "consistent db'" using consistent_DeleteAnswer [OF assms c] .
  then show ?thesis
    by (cases e) (simp_all add: DeleteAnswerHandler_def Some c)
qed

lemma CreateAnswerHandler_cases:
  "(CreateAnswerHandler r env db = (http_Error ''bad path'' StatusBadRequest, db))
   \<or> (CreateAnswerHandler r env db = (http_Error ''bad id'' StatusBadRequest, db))
   \<or> (CreateAnswerHandler r env db = (http_Error ''bad request'' StatusBadRequest, db))
   \<or> (\<exists>i req. CreateAnswerHandler r env db =
         insertAnswer env \<lparr>aID = 0, aQuestionID = i, aUserID = req ''user_id'',
                            aText = req ''text'', aCreatedAt = ZeroTime\<rparr> db)"
  by (auto simp: CreateAnswerHandler_def Let_def split: option.splits)

lemma consistent_insertAnswer:
  assumes "consistent db" and "aID a = 0"
  shows "consistent (snd (insertAnswer env a db))"
proof -
  obtain e a' db' where c: "CreateAnswer env a db = (e, a', db')"
    by (cases "CreateAnswer env a db") auto
  have "consistent db'" using consistent_CreateAnswer [OF assms c] .
  then show ?thesis by (cases e) (simp_all add: c)
qed

lemma consistent_CreateAnswerHandler:
  assumes "consistent db"
  shows "consistent (snd (CreateAnswerHandler r env db))"
  using CreateAnswerHandler_cases [of r env db] assms
  by (auto simp: consistent_insertAnswer)

lemma GetAllQuestionsHandler_store: "snd (GetAllQuestionsHandler r env db) = db"
  by (simp add: GetAllQuestionsHandler_def split: sum.splits)

lemma GetQuestionHandler_store: "snd (GetQuestionHandler r env db) = db"
  by (simp add: GetQuestionHandler_def split: sum.splits option.splits)

lemma GetAnswerHandler_store: "snd (GetAnswerHandler r env db) = db"
  by (simp add: GetAnswerHandler_def split: sum.splits option.splits)

lemma consistent_questionsRoute:
  "consistent db \<Longrightarrow> consistent (snd (questionsRoute r env db))"
  by (simp add: questionsRoute_def consistent_CreateAnswerHandler
      consistent_CreateQuestionHandler consistent_DeleteQuestionHandler
      GetAllQuestionsHandler_store GetQuestionHandler_store)

lemma consistent_answersRoute:
  "consistent db \<Longrightarrow> consistent (snd (answersRoute r env db))"
  by (simp add: answersRoute_def consistent_DeleteAnswerHandler GetAnswerHandler_store)

lemma reachable_consistent: "reachable db \<Longrightarrow> consistent db"
proof (induction rule: reachable.induct)
  case reachable_empty
  show ?case by (rule consistent_empty)
next
  case (reachable_questions db r env db')
  then show ?case using consistent_questionsRoute [of db r env] by simp
next
  case (reachable_answers db r env db')
  then show ?case using consistent_answersRoute [of db r env] by simp
qed

lemma reachable_serve: "reachable db \<Longrightarrow> reachable (snd (serve c db))"
  by (cases c) (auto intro: reachable.intros)

lemma run_Cons_snd: "snd (run (c # cs) db) = snd (run cs (snd (serve c db)))"
  by (simp split: prod.splits)

lemma reachable_run: "reachable db \<Longrightarrow> reachable (snd (run cs db))"
proof (induction cs arbitrary: db)
  case Nil
  then show ?case by simp
next
  case (Cons c cs)
  from Cons.IH [OF reachable_serve [OF Cons.prems, of c]]
  show ?case by (simp only: run_Cons_snd)
qed

lemma reachable_sampleDB: "reachable sampleDB"
proof -
  let ?r1 = "\<lparr>Method = MethodPost, Path = ''/questions/'',
               Body = Some (JObject [(''text'', JString ''Why?'')])\<rparr>"
  let ?e1 = "\<lparr>now = 1, fails = noFaults\<rparr>"
  let ?r2 = "\<lparr>Method = MethodPost, Path = ''/questions/1/answers'',
               Body = Some (JObject [(''user_id'', JString ''u1''),
                                     (''text'', JString ''Because'')])\<rparr>"
  let ?e2 = "\<lparr>now = 2, fails = noFaults\<rparr>"
  have s: "snd (questionsRoute ?r2 ?e2 (snd (questionsRoute ?r1 ?e1 emptyDB))) = sampleDB"
    by code_simp
  show ?thesis
    by (rule reachable_questions [OF reachable_questions [OF reachable_empty refl] s])
qed

lemma answers_step_refl: "answers_step db db"
  by (simp add: answers_step_def)

lemma answers_step_CreateQuestionHandler:
  "answers_step db (snd (CreateQuestionHandler r env db))"
proof (cases "Decode [''text''] (Body r)")
  case None
  then show ?thesis by (simp add: CreateQuestionHandler_def answers_step_refl)
next
  case (Some req)
  let ?q = "\<lparr>qID = 0, qText = req ''text'', qCreatedAt = ZeroTime, qAnswers = []\<rparr>"
  obtain e q' db' where c: "CreateQuestion env ?q db = (e, q', db')"
    by (cases "CreateQuestion env ?q db") auto
  have "answers_step db db'"
    using CreateQuestion_effect [OF _ c] by (auto simp: answers_step_def)
  then show ?thesis
    by (cases e) (simp_all add: CreateQuestionHandler_def Some c)
qed

lemma answers_step_DeleteQuestionHandler:
  "answers_step db (snd (DeleteQuestionHandler r env db))"
proof (cases "Atoi (TrimPrefix (Path r) ''/questions/'')")
  case None
  then show ?thesis by (simp add: DeleteQuestionHandler_def answers_step_refl)
next
  case (Some i)
  obtain e db' where c: "DeleteQuestion env i db = (e, db')"
    by (cases "DeleteQuestion env i db") auto
  have "answers_step db db'"
    using DeleteQuestion_effect [OF c] by (auto simp: answers_step_def)
  then show ?thesis
    by (cases e) (simp_all add: DeleteQuestionHandler_def Some c)
qed

lemma answers_step_DeleteAnswerHandler:
  "answers_step db (snd (DeleteAnswerHandler r env db))"
proof (cases "Atoi (TrimPrefix (Path r) ''/answers/'')")
  case None
  then show ?thesis by (simp add: DeleteAnswerHandler_def answers_step_refl)
next
  case (Some i)
  obtain e db' where c: "DeleteAnswer env i db = (e, db')"
    by (cases "DeleteAnswer env i db") auto
  have "answers_step db db'"
    using DeleteAnswer_effect [OF c] by (auto simp: answers_step_def)
  then show ?thesis
    by (cases e) (simp_all add: DeleteAnswerHandler_def Some c)
qed

lemma answers_step_insertAnswer:
  assumes "aID a = 0"
  shows "answers_step db (snd (insertAnswer env a db))"
proof -
  obtain e a' db' where c: "CreateAnswer env a db = (e, a', db')"
    by (cases "CreateAnswer env a db") auto
  have "answers_step db db'"
    using CreateAnswer_effect [OF assms c] by (auto simp: answers_step_def)
  then show ?thesis by (cases e) (simp_all add: c)
qed

lemma answers_step_CreateAnswerHandler:
  "answers_step db (snd (CreateAnswerHandler r env db))"
  using CreateAnswerHandler_cases [of r env db]
  by (auto simp: answers_step_insertAnswer answers_step_refl)

lemma answers_step_serve: "answers_step db (snd (serve c db))"
proof (cases c)
  case (ToQuestions r env)
  then show ?thesis
    by (simp add: questionsRoute_def answers_step_CreateAnswerHandler
        answers_step_CreateQuestionHandler answers_step_DeleteQuestionHandler
        GetAllQuestionsHandler_store GetQuestionHandler_store answers_step_refl)
next
  case (ToAnswers r env)
  then show ?thesis
    by (simp add: answersRoute_def answers_step_DeleteAnswerHandler GetAnswerHandler_store
        answers_step_refl)
qed

lemma CreateAnswer_checks_question:
  "CreateAnswer env x db = (None, x', db') \<Longrightarrow> aQuestionID x \<in> set (question_ids db)"
proof -
  assume c: "CreateAnswer env x db = (None, x', db')"
  show ?thesis
  proof (cases "DB_First_Question (fails env 0) (aQuestionID x) db")
    case (Inl e)
    with c show ?thesis by (simp add: CreateAnswer_def)
  next
    case (Inr q)
    then obtain row where "find (\<lambda>r. fst r = aQuestionID x) (questions db) = Some row"
      by (auto simp: DB_First_Question_def split: if_splits option.splits)
    then have "row \<in> set (questions db)" "fst row = aQuestionID x"
      by (auto simp: find_Some_iff in_set_conv_nth)
    then show ?thesis by (force simp: question_ids_def)
  qed
qed

lemma gone_step:
  assumes "answers_step db db'" and "k \<notin> set (answer_ids db)" and "k < answers_id_seq db"
  shows "k \<notin> set (answer_ids db') \<and> k < answers_id_seq db'"
proof
  show "k \<notin> set (answer_ids db')"
  proof
    assume "k \<in> set (answer_ids db')"
    then obtain a where a: "a \<in> set (answers db')" "aID a = k"
      by (auto simp: answer_ids_def)
    with assms(1) have "a \<in> set (answers db) \<or> aID a = answers_id_seq db"
      by (auto simp: answers_step_def)
    with a assms(2,3) show False by (auto simp: answer_ids_def)
  qed
  show "k < answers_id_seq db'" using assms(1,3) by (simp add: answers_step_def)
qed

lemma gone_run:
  "k \<notin> set (answer_ids db) \<Longrightarrow> k < answers_id_seq db \<Longrightarrow>
   k \<notin> set (answer_ids (snd (run cs db))) \<and> k < answers_id_seq (snd (run cs db))"
proof (induction cs arbitrary: db)
  case Nil
  then show ?case by simp
next
  case (Cons c cs)
  from gone_step [OF answers_step_serve [of db c] Cons.prems]
  have "k \<notin> set (answer_ids (snd (serve c db)))" "k < answers_id_seq (snd (serve c db))"
    by simp_all
  from Cons.IH [OF this] show ?case unfolding run_Cons_snd .
qed

lemma DeleteQuestionHandler_present:
  assumes "Atoi (TrimPrefix (Path r) ''/questions/'') = Some ident"
    and "ident \<in> set (question_ids db)" and "\<not> fails env 0"
  shows "DeleteQuestionHandler r env db =
           (\<lparr>StatusCode = StatusNoContent, Payload = NoBody\<rparr>,
            db\<lparr>questions := filter (\<lambda>r. fst r \<noteq> ident) (questions db),
               answers := filter (\<lambda>a. aQuestionID a \<noteq> ident) (answers db)\<rparr>)"
proof -
  obtain e db' where c: "DeleteQuestion env ident db = (e, db')"
    by (cases "DeleteQuestion env ident db") auto
  from DeleteQuestion_effect [OF c] assms(2,3)
  have "e = None" and "db' = db\<lparr>questions := filter (\<lambda>r. fst r \<noteq> ident) (questions db),
               answers := filter (\<lambda>a. aQuestionID a \<noteq> ident) (answers db)\<rparr>"
    by auto
  then show ?thesis by (simp add: DeleteQuestionHandler_def assms(1) c)
qed

section \<open>Counting questions, decoding bodies, fetching what was created\<close>

lemma not_created_error: "\<not> created (http_Error m c)"
  by (simp add: created_def http_Error_def)

lemmas created_simps = created_def http_Error_def http_NotFound_def status_defs

lemma count_CreateAnswerHandler:
  "CreateAnswerHandler r env db = (resp, db') \<Longrightarrow>
     \<not> created resp \<and> questions db' = questions db"
proof -
  assume h: "CreateAnswerHandler r env db = (resp, db')"
  have q: "questions db' = questions db"
    using CreateAnswerHandler_questions [of r env db] h by simp
  have "\<not> created (fst (CreateAnswerHandler r env db))"
    by (auto simp: CreateAnswerHandler_def Let_def created_simps
        split: option.splits prod.splits)
  with h q show ?thesis by simp
qed

lemma count_CreateQuestionHandler:
  assumes "CreateQuestionHandler r env db = (resp, db')"
  shows "length (questions db') = length (questions db) + (if created resp then 1 else 0)"
proof (cases "Decode [''text''] (Body r)")
  case None
  with assms show ?thesis by (auto simp: CreateQuestionHandler_def created_simps)
next
  case (Some req)
  let ?q = "\<lparr>qID = 0, qText = req ''text'', qCreatedAt = ZeroTime, qAnswers = []\<rparr>"
  obtain e q' d where c: "CreateQuestion env ?q db = (e, q', d)"
    by (cases "CreateQuestion env ?q db") auto
  from CreateQuestion_effect [OF _ c] assms show ?thesis
    by (auto simp: CreateQuestionHandler_def Some c created_simps)
qed

lemma count_GetAllQuestionsHandler:
  "GetAllQuestionsHandler r env db = (resp, db') \<Longrightarrow> \<not> created resp \<and> db' = db"
  by (auto simp: GetAllQuestionsHandler_def created_simps split: sum.splits)

lemma count_GetQuestionHandler:
  "GetQuestionHandler r env db = (resp, db') \<Longrightarrow> \<not> created resp \<and> db' = db"
  by (auto simp: GetQuestionHandler_def created_simps
      split: sum.splits option.splits)

lemma count_GetAnswerHandler:
  "GetAnswerHandler r env db = (resp, db') \<Longrightarrow> \<not> created resp \<and> db' = db"
  by (auto simp: GetAnswerHandler_def created_simps
      split: sum.splits option.splits)

lemma count_serve:
  assumes "callMethod c \<noteq> MethodDelete" and "serve c db = (resp, db')"
  shows "length (questions db') = length (questions db) + (if created resp then 1 else 0)"
proof (cases c)
  case (ToQuestions r env)
  with assms have m: "Method r \<noteq> MethodDelete" and s: "questionsRoute r env db = (resp, db')"
    by simp_all
  from s m show ?thesis
    using count_CreateAnswerHandler [of r env db resp db']
      count_CreateQuestionHandler [of r env db resp db']
      count_GetAllQuestionsHandler [of r env db resp db']
      count_GetQuestionHandler [of r env db resp db']
    by (auto simp: questionsRoute_def created_simps split: if_splits)
next
  case (ToAnswers r env)
  with assms have m: "Method r \<noteq> MethodDelete" and s: "answersRoute r env db = (resp, db')"
    by simp_all
  from s m show ?thesis
    using count_GetAnswerHandler [of r env db resp db']
    by (auto simp: answersRoute_def created_simps split: if_splits)
qed

lemma count_run:
  "\<forall>c \<in> set cs. callMethod c \<noteq> MethodDelete \<Longrightarrow>
   length (questions (snd (run cs db)))
     = length (questions db) + length (filter created (fst (run cs db)))"
proof (induction cs arbitrary: db)
  case Nil
  then show ?case by simp
next
  case (Cons c cs)
  obtain resp db' where s: "serve c db = (resp, db')" by (cases "serve c db") auto
  obtain resps db'' where r: "run cs db' = (resps, db'')" by (cases "run cs db'") auto
  from Cons.prems have m: "callMethod c \<noteq> MethodDelete"
    and rest: "\<forall>c \<in> set cs. callMethod c \<noteq> MethodDelete" by simp_all
  from Cons.IH [OF rest, of db'] r
  have ih: "length (questions db'') = length (questions db') + length (filter created resps)"
    by simp
  from count_serve [OF m s] ih show ?case by (simp add: s r)
qed

lemma scanQuestion_row: "(\<lambda>q. (qID q, qText q, qCreatedAt q)) (scanQuestion row) = row"
  by (simp add: scanQuestion_def)

lemma run_sampleCalls: "snd (run sampleCalls emptyDB) = sampleDB"
  by code_simp

lemma decodeObject_skip:
  "fieldFor names k = None \<Longrightarrow>
   decodeObject names (kvs1 @ (k, v) # kvs2) acc = decodeObject names (kvs1 @ kvs2) acc"
  by (induction kvs1 arbitrary: acc) (auto split: option.splits json.splits)

lemma Decode_skip:
  "fieldFor names k = None \<Longrightarrow>
   Decode names (Some (JObject (kvs1 @ (k, v) # kvs2))) = Decode names (Some (JObject (kvs1 @ kvs2)))"
  by (simp add: Decode_def decodeObject_skip)

lemma question_fields_only:
  "fieldFor [''text''] ''id'' = None" "fieldFor [''text''] ''created_at'' = None"
  by (simp_all add: fieldFor_def)

lemma answer_fields_only:
  "fieldFor [''user_id'', ''text''] ''id'' = None"
  "fieldFor [''user_id'', ''text''] ''created_at'' = None"
  "fieldFor [''user_id'', ''text''] ''question_id'' = None"
  by (simp_all add: fieldFor_def)

lemma find_appended:
  "\<forall>x \<in> set xs. \<not> P x \<Longrightarrow> P y \<Longrightarrow> find P (xs @ [y]) = Some y"
  by (induction xs) auto

lemma CreateQuestionHandler_created:
  assumes "StatusCode (fst (CreateQuestionHandler r env db)) = 201"
  shows "\<exists>req. Decode [''text''] (Body r) = Some req
           \<and> CreateQuestionHandler r env db =
               (\<lparr>StatusCode = StatusCreated,
                  Payload = QuestionJSON
                    \<lparr>qID = questions_id_seq db, qText = req ''text'',
                      qCreatedAt = Instant (now env), qAnswers = []\<rparr>\<rparr>,
                db\<lparr>questions := questions db
                       @ [(questions_id_seq db, req ''text'', Instant (now env))],
                   questions_id_seq := questions_id_seq db + 1\<rparr>)"
proof (cases "Decode [''text''] (Body r)")
  case None
  with assms show ?thesis
    by (simp add: CreateQuestionHandler_def http_Error_def status_defs)
next
  case (Some req)
  let ?q = "\<lparr>qID = 0, qText = req ''text'', qCreatedAt = ZeroTime, qAnswers = []\<rparr>"
  obtain e q' d where c: "CreateQuestion env ?q db = (e, q', d)"
    by (cases "CreateQuestion env ?q db") auto
  from assms have "e = None"
    by (cases e) (simp_all add: CreateQuestionHandler_def Some c http_Error_def status_defs)
  with CreateQuestion_effect [OF _ c] show ?thesis
    by (simp add: CreateQuestionHandler_def Some c autoCreateTime_def)
qed

lemma CreateAnswerHandler_created:
  assumes "StatusCode (fst (CreateAnswerHandler r env db)) = 201"
  shows "\<exists>req i. Decode [''user_id'', ''text''] (Body r) = Some req
           \<and> i \<in> set (question_ids db)
           \<and> CreateAnswerHandler r env db =
               (\<lparr>StatusCode = StatusCreated,
                  Payload = AnswerJSON
                    \<lparr>aID = answers_id_seq db, aQuestionID = i, aUserID = req ''user_id'',
                      aText = req ''text'', aCreatedAt = Instant (now env)\<rparr>\<rparr>,
                db\<lparr>answers := answers db
                       @ [\<lparr>aID = answers_id_seq db, aQuestionID = i,
                            aUserID = req ''user_id'', aText = req ''text'',
                            aCreatedAt = Instant (now env)\<rparr>],
                   answers_id_seq := answers_id_seq db + 1\<rparr>)"
proof -
  let ?parts = "Split (TrimPrefix (Path r) ''/questions/'') CHR ''/''"
  have p: "\<not> (length ?parts < 2 \<or> ?parts ! 1 \<noteq> ''answers'')"
  proof
    assume "length ?parts < 2 \<or> ?parts ! 1 \<noteq> ''answers''"
    then have "CreateAnswerHandler r env db = (http_Error ''bad path'' StatusBadRequest, db)"
      by (simp add: CreateAnswerHandler_def Let_def)
    with assms show False by (simp add: http_Error_def status_defs)
  qed
  from assms p obtain i where i: "Atoi (?parts ! 0) = Some i"
    by (cases "Atoi (?parts ! 0)")
       (auto simp: CreateAnswerHandler_def Let_def http_Error_def status_defs)
  from assms p i obtain req where req: "Decode [''user_id'', ''text''] (Body r) = Some req"
    by (cases "Decode [''user_id'', ''text''] (Body r)")
       (auto simp: CreateAnswerHandler_def Let_def http_Error_def status_defs)
  let ?a = "\<lparr>aID = 0, aQuestionID = i, aUserID = req ''user_id'',
               aText = req ''text'', aCreatedAt = ZeroTime\<rparr>"
  have h: "CreateAnswerHandler r env db = insertAnswer env ?a db"
    using p i req by (simp add: CreateAnswerHandler_def Let_def)
  obtain e a' d where c: "CreateAnswer env ?a db = (e, a', d)"
    by (cases "CreateAnswer env ?a db") auto
  from assms have "e = None"
    by (cases e) (simp_all add: h c http_Error_def status_defs)
  with CreateAnswer_effect [OF _ c] req show ?thesis
    by (simp add: h c autoCreateTime_def)
qed

lemma fetch_created_question:
  assumes "consistent db" and "Atoi idStr = Some (questions_id_seq db)"
    and "\<not> fails env 0" and "\<not> fails env 1"
  shows "fst (questionsRoute \<lparr>Method = MethodGet, Path = ''/questions/'' @ idStr, Body = b\<rparr> env
           (db\<lparr>questions := questions db @ [(questions_id_seq db, t, c)],
               questions_id_seq := questions_id_seq db + 1\<rparr>))
         = \<lparr>StatusCode = 200,
            Payload = QuestionJSON
              \<lparr>qID = questions_id_seq db, qText = t, qCreatedAt = c, qAnswers = []\<rparr>\<rparr>"
proof -
  let ?db' = "db\<lparr>questions := questions db @ [(questions_id_seq db, t, c)],
               questions_id_seq := questions_id_seq db + 1\<rparr>"
  let ?r = "\<lparr>Method = MethodGet, Path = ''/questions/'' @ idStr, Body = b\<rparr>"
  have fresh: "\<forall>x \<in> set (questions db). \<not> fst x = questions_id_seq db"
    using assms(1) by (auto simp: consistent_def question_ids_def)
  have f: "find (\<lambda>r. fst r = questions_id_seq db) (questions ?db')
      = Some (questions_id_seq db, t, c)"
    using find_appended [OF fresh, of "(questions_id_seq db, t, c)"] by simp
  have none: "filter (\<lambda>a. aQuestionID a = questions_id_seq db) (answers db) = []"
  proof -
    have "\<And>x. x \<in> set (answers db) \<Longrightarrow> aQuestionID x < questions_id_seq db"
      using assms(1) unfolding consistent_def by blast
    then show ?thesis by (force simp: filter_empty_conv)
  qed
  have trim: "Atoi (TrimPrefix (Path ?r) ''/questions/'') = Some (questions_id_seq db)"
    using TrimPrefix_append [of "''/questions/''" idStr] assms(2) by simp
  have g: "GetQuestionWithAnswers env (questions_id_seq db) ?db'
      = Inr \<lparr>qID = questions_id_seq db, qText = t, qCreatedAt = c, qAnswers = []\<rparr>"
    using assms(3,4) f none
    by (simp add: GetQuestionWithAnswers_def DB_First_Question_def DB_Preload_Answers_def
        scanQuestion_def)
  have "GetQuestionHandler ?r env ?db' =
      (\<lparr>StatusCode = StatusOK,
         Payload = QuestionJSON
           \<lparr>qID = questions_id_seq db, qText = t, qCreatedAt = c, qAnswers = []\<rparr>\<rparr>, ?db')"
    using trim g by (simp add: GetQuestionHandler_def)
  then show ?thesis
    unfolding route_get_question [OF assms(2)] by (simp add: StatusOK_def)
qed

lemma fetch_created_answer:
  assumes "consistent db" and "Atoi idStr = Some (answers_id_seq db)"
    and "\<not> fails env 0" and "aID a = answers_id_seq db"
  shows "fst (answersRoute \<lparr>Method = MethodGet, Path = ''/answers/'' @ idStr, Body = b\<rparr> env
           (db\<lparr>answers := answers db @ [a], answers_id_seq := answers_id_seq db + 1\<rparr>))
         = \<lparr>StatusCode = 200, Payload = AnswerJSON a\<rparr>"
proof -
  let ?db' = "db\<lparr>answers := answers db @ [a], answers_id_seq := answers_id_seq db + 1\<rparr>"
  let ?r = "\<lparr>Method = MethodGet, Path = ''/answers/'' @ idStr, Body = b\<rparr>"
  have fresh: "\<forall>x \<in> set (answers db). \<not> aID x = answers_id_seq db"
    using assms(1) by (auto simp: consistent_def answer_ids_def)
  have f: "find (\<lambda>x. aID x = answers_id_seq db) (answers ?db') = Some a"
    using find_appended [OF fresh, of a] assms(4) by simp
  have trim: "Atoi (TrimPrefix (Path ?r) ''/answers/'') = Some (answers_id_seq db)"
    using TrimPrefix_append [of "''/answers/''" idStr] assms(2) by simp
  have "GetAnswerHandler ?r env ?db' = (\<lparr>StatusCode = StatusOK, Payload = AnswerJSON a\<rparr>, ?db')"
    using trim f assms(3) by (simp add: GetAnswerHandler_def GetAnswer_def DB_First_Answer_def)
  then show ?thesis
    unfolding route_get_answer by (simp add: StatusOK_def)
qed

section \<open>Routing\<close>

text \<open>
  Claim C10. The two routes answer an unsupported method differently: under \<open>/answers/\<close>
  every method other than GET and DELETE gets 405, while under \<open>/questions/\<close> a request
  that matches no branch (neither GET nor DELETE, and not a POST to the collection or to a
  path ending in \<open>/answers\<close>) gets 404. Neither touches the store.
\<close>

theorem C10_unsupported_method:
  "(Method r \<noteq> MethodGet \<and> Method r \<noteq> MethodDelete \<longrightarrow>
      StatusCode (fst (answersRoute r env db)) = 405 \<and> snd (answersRoute r env db) = db)
   \<and> (Method r \<noteq> MethodGet \<and> Method r \<noteq> MethodDelete
       \<and> \<not> (Method r = MethodPost
              \<and> (HasSuffix (Path r) ''/answers'' \<or> Path r = ''/questions/''
                   \<or> Path r = ''/questions'')) \<longrightarrow>
      StatusCode (fst (questionsRoute r env db)) = 404 \<and> snd (questionsRoute r env db) = db)"
  by (auto simp: answersRoute_def questionsRoute_def status_simps status_defs)

theorem C10_unsupported_method_witness:
  "StatusCode (fst (answersRoute \<lparr>Method = ''PUT'', Path = ''/answers/1'', Body = None\<rparr>
       \<lparr>now = 1, fails = noFaults\<rparr> emptyDB)) = 405
   \<and> StatusCode (fst (questionsRoute \<lparr>Method = ''PUT'', Path = ''/questions/1'', Body = None\<rparr>
       \<lparr>now = 1, fails = noFaults\<rparr> emptyDB)) = 404"
  using C10_unsupported_method [of "\<lparr>Method = ''PUT'', Path = ''/answers/1'', Body = None\<rparr>"
      "\<lparr>now = 1, fails = noFaults\<rparr>" emptyDB]
    C10_unsupported_method [of "\<lparr>Method = ''PUT'', Path = ''/questions/1'', Body = None\<rparr>"
      "\<lparr>now = 1, fails = noFaults\<rparr>" emptyDB]
  by (simp add: MethodGet_def MethodDelete_def MethodPost_def)


text \<open>
  Claim C6. A POST whose path ends in \<open>/answers\<close> is handed to answer creation before
  any other branch is looked at: the route's result is that of \<open>CreateAnswerHandler\<close>, so
  no question row is read back or deleted (the table of questions is as before) and the
  status is one of answer creation's, 201 or 400.
\<close>

theorem C6_answers_suffix_first:
  "Method r = MethodPost \<Longrightarrow> HasSuffix (Path r) ''/answers'' \<Longrightarrow>
     questionsRoute r env db = CreateAnswerHandler r env db
     \<and> questions (snd (questionsRoute r env db)) = questions db
     \<and> (StatusCode (fst (questionsRoute r env db)) = 201
        \<or> StatusCode (fst (questionsRoute r env db)) = 400)"
  using CreateAnswerHandler_questions [of r env db] CreateAnswerHandler_status [of r env db]
  by (simp add: questionsRoute_def)

theorem C6_answers_suffix_first_witness:
  "Method \<lparr>Method = MethodPost, Path = ''/questions/1/answers'',
        Body = Some (JObject [(''user_id'', JString ''u1''), (''text'', JString ''Again'')])\<rparr>
     = MethodPost
   \<and> HasSuffix ''/questions/1/answers'' ''/answers''
   \<and> StatusCode (fst (CreateAnswerHandler
        \<lparr>Method = MethodPost, Path = ''/questions/1/answers'',
          Body = Some (JObject [(''user_id'', JString ''u1''), (''text'', JString ''Again'')])\<rparr>
        env0 sampleDB)) = 201
   \<and> questions (snd (questionsRoute
        \<lparr>Method = MethodPost, Path = ''/questions/1/answers'',
          Body = Some (JObject [(''user_id'', JString ''u1''), (''text'', JString ''Again'')])\<rparr>
        env0 sampleDB)) = questions sampleDB"
proof -
  let ?r = "\<lparr>Method = MethodPost, Path = ''/questions/1/answers'',
        Body = Some (JObject [(''user_id'', JString ''u1''), (''text'', JString ''Again'')])\<rparr>"
  have m: "Method ?r = MethodPost" by simp
  have p: "HasSuffix ''/questions/1/answers'' ''/answers''" by (simp add: HasSuffix_def)
  have p': "HasSuffix (Path ?r) ''/answers''" using p by simp
  have s: "StatusCode (fst (questionsRoute ?r env0 sampleDB)) = 201" by code_simp
  note c = C6_answers_suffix_first [OF m p', of env0 sampleDB]
  from c have e: "questionsRoute ?r env0 sampleDB = CreateAnswerHandler ?r env0 sampleDB"
    by (rule conjunct1)
  from c have q: "questions (snd (questionsRoute ?r env0 sampleDB)) = questions sampleDB"
    by (elim conjE)
  have s': "StatusCode (fst (CreateAnswerHandler ?r env0 sampleDB)) = 201"
    using s unfolding e .
  show ?thesis using m p s' q by (intro conjI)
qed


section \<open>Creating an answer\<close>

text \<open>
  Claim C3. A POST to \<open>/questions/{id}/answers\<close> with an id that has no question row gets
  400 and leaves the store as it was, whatever the body and whatever the storage does: the
  read of the question comes first and its error ends the request before any insert.
\<close>

theorem C3_answer_for_missing_question:
  assumes "Atoi idStr = Some ident" and "ident \<notin> set (question_ids db)"
    and "Method r = MethodPost" and "Path r = ''/questions/'' @ idStr @ ''/answers''"
  shows "StatusCode (fst (questionsRoute r env db)) = 400 \<and> snd (questionsRoute r env db) = db"
proof -
  have suf: "HasSuffix (Path r) ''/answers''"
    using HasSuffix_append [of "''/questions/'' @ idStr" "''/answers''"] assms(4) by simp
  have trim: "TrimPrefix (Path r) ''/questions/'' = idStr @ ''/answers''"
    using TrimPrefix_append [of "''/questions/''" "idStr @ ''/answers''"] assms(4) by simp
  have parts: "Split (idStr @ ''/answers'') CHR ''/'' = [idStr, ''answers'']"
    using Split_id_answers Atoi_no_slash [OF assms(1)] by simp
  obtain e where first: "DB_First_Question (fails env 0) ident db = Inl e"
    using DB_First_Question_absent [OF assms(2)] by blast
  have repo: "\<And>a. aQuestionID a = ident \<Longrightarrow> CreateAnswer env a db = (Some e, a, db)"
    by (simp add: CreateAnswer_def first)
  have "CreateAnswerHandler r env db
          = (http_Error ''question not found'' StatusBadRequest, db)
        \<or> CreateAnswerHandler r env db = (http_Error ''bad request'' StatusBadRequest, db)"
    by (simp add: CreateAnswerHandler_def trim parts assms(1) repo split: option.splits)
  then show ?thesis
    using suf assms(3) by (auto simp: questionsRoute_def status_simps status_defs)
qed

theorem C3_answer_for_missing_question_witness:
  "Atoi ''7'' = Some 7 \<and> 7 \<notin> set (question_ids sampleDB)
   \<and> StatusCode (fst (questionsRoute
        \<lparr>Method = MethodPost, Path = ''/questions/7/answers'',
          Body = Some (JObject [(''user_id'', JString ''u1''), (''text'', JString ''Again'')])\<rparr>
        env0 sampleDB)) = 400
   \<and> snd (questionsRoute
        \<lparr>Method = MethodPost, Path = ''/questions/7/answers'',
          Body = Some (JObject [(''user_id'', JString ''u1''), (''text'', JString ''Again'')])\<rparr>
        env0 sampleDB) = sampleDB"
proof -
  have a: "Atoi ''7'' = Some 7" by code_simp
  have b: "7 \<notin> set (question_ids sampleDB)" by (simp add: question_ids_def sampleDB_def)
  show ?thesis
    using a b C3_answer_for_missing_question [OF a b,
        of "\<lparr>Method = MethodPost, Path = ''/questions/7/answers'',
          Body = Some (JObject [(''user_id'', JString ''u1''), (''text'', JString ''Again'')])\<rparr>"
        env0]
    by simp
qed

section \<open>Path parameters and missing rows\<close>

text \<open>
  Claim C8, as the code has it. A GET or DELETE on \<open>/questions/{x}\<close> or \<open>/answers/{x}\<close>
  whose remainder \<open>x\<close> is not accepted by \<open>Atoi\<close> gets 400 and leaves the store as it
  was, with one exception: a GET on \<open>/questions/\<close> (empty remainder) is the listing.
\<close>

theorem C8_bad_id:
  assumes "Atoi x = None" and "Method r = MethodGet \<or> Method r = MethodDelete"
  shows "(Path r = ''/questions/'' @ x \<and> \<not> (Method r = MethodGet \<and> x = []) \<longrightarrow>
            StatusCode (fst (questionsRoute r env db)) = 400
            \<and> snd (questionsRoute r env db) = db)
       \<and> (Path r = ''/answers/'' @ x \<longrightarrow>
            StatusCode (fst (answersRoute r env db)) = 400
            \<and> snd (answersRoute r env db) = db)"
proof (intro conjI impI)
  assume p: "Path r = ''/questions/'' @ x \<and> \<not> (Method r = MethodGet \<and> x = [])"
  then have trim: "TrimPrefix (Path r) ''/questions/'' = x"
    using TrimPrefix_append [of "''/questions/''" x] by simp
  have g: "GetQuestionHandler r env db = (http_Error ''bad id'' StatusBadRequest, db)"
    by (simp add: GetQuestionHandler_def trim assms(1))
  have d: "DeleteQuestionHandler r env db = (http_Error ''bad id'' StatusBadRequest, db)"
    by (simp add: DeleteQuestionHandler_def trim assms(1))
  have route: "questionsRoute r env db = (http_Error ''bad id'' StatusBadRequest, db)"
    using assms(2) p g d methods_distinct
    by (auto simp: questionsRoute_def)
  show "StatusCode (fst (questionsRoute r env db)) = 400"
    by (simp add: route status_simps status_defs)
  show "snd (questionsRoute r env db) = db" by (simp add: route)
next
  assume p: "Path r = ''/answers/'' @ x"
  then have trim: "TrimPrefix (Path r) ''/answers/'' = x"
    using TrimPrefix_append [of "''/answers/''" x] by simp
  have g: "GetAnswerHandler r env db = (http_Error ''bad id'' StatusBadRequest, db)"
    by (simp add: GetAnswerHandler_def trim assms(1))
  have d: "DeleteAnswerHandler r env db = (http_Error ''bad id'' StatusBadRequest, db)"
    by (simp add: DeleteAnswerHandler_def trim assms(1))
  have route: "answersRoute r env db = (http_Error ''bad id'' StatusBadRequest, db)"
    using assms(2) g d methods_distinct by (auto simp: answersRoute_def)
  show "StatusCode (fst (answersRoute r env db)) = 400"
    by (simp add: route status_simps status_defs)
  show "snd (answersRoute r env db) = db" by (simp add: route)
qed

theorem C8_bad_id_witness:
  "Atoi ''abc'' = None
   \<and> StatusCode (fst (questionsRoute
        \<lparr>Method = MethodDelete, Path = ''/questions/abc'', Body = None\<rparr> env0 sampleDB)) = 400
   \<and> snd (questionsRoute
        \<lparr>Method = MethodDelete, Path = ''/questions/abc'', Body = None\<rparr> env0 sampleDB) = sampleDB
   \<and> StatusCode (fst (answersRoute
        \<lparr>Method = MethodGet, Path = ''/answers/abc'', Body = None\<rparr> env0 sampleDB)) = 400
   \<and> snd (answersRoute
        \<lparr>Method = MethodGet, Path = ''/answers/abc'', Body = None\<rparr> env0 sampleDB) = sampleDB"
proof -
  have a: "Atoi ''abc'' = None" by code_simp
  have m1: "Method \<lparr>Method = MethodDelete, Path = ''/questions/abc'', Body = None\<rparr> = MethodGet
      \<or> Method \<lparr>Method = MethodDelete, Path = ''/questions/abc'', Body = None\<rparr> = MethodDelete"
    by simp
  have m2: "Method \<lparr>Method = MethodGet, Path = ''/answers/abc'', Body = None\<rparr> = MethodGet
      \<or> Method \<lparr>Method = MethodGet, Path = ''/answers/abc'', Body = None\<rparr> = MethodDelete"
    by simp
  show ?thesis
    using a C8_bad_id [OF a m1, of env0 sampleDB] C8_bad_id [OF a m2, of env0 sampleDB]
    by simp
qed

text \<open>
  The claim without the exception fails: the empty remainder does not parse, and the GET
  lists the questions with status 200.
\<close>

theorem C8_bad_id_counterexample:
  "Atoi [] = None
   \<and> StatusCode (fst (questionsRoute
        \<lparr>Method = MethodGet, Path = ''/questions/'' @ [], Body = None\<rparr> env0 sampleDB)) = 200"
  by code_simp


text \<open>
  Claim C4. For a path id that parses and has no row, GET and DELETE under \<open>/questions/\<close>
  and under \<open>/answers/\<close> all answer 404, whatever the storage does; and each repository
  delete returns \<open>ErrRecordNotFound\<close> exactly when the statement affected zero rows.
\<close>

theorem C4_missing_row:
  assumes "Atoi idStr = Some ident"
  shows "(ident \<notin> set (question_ids db) \<longrightarrow>
            StatusCode (fst (questionsRoute
              \<lparr>Method = MethodGet, Path = ''/questions/'' @ idStr, Body = b\<rparr> env db)) = 404
          \<and> StatusCode (fst (questionsRoute
              \<lparr>Method = MethodDelete, Path = ''/questions/'' @ idStr, Body = b\<rparr> env db)) = 404)
       \<and> (ident \<notin> set (answer_ids db) \<longrightarrow>
            StatusCode (fst (answersRoute
              \<lparr>Method = MethodGet, Path = ''/answers/'' @ idStr, Body = b\<rparr> env db)) = 404
          \<and> StatusCode (fst (answersRoute
              \<lparr>Method = MethodDelete, Path = ''/answers/'' @ idStr, Body = b\<rparr> env db)) = 404)
       \<and> (fst (DeleteQuestion env ident db) = Some ErrRecordNotFound
            \<longleftrightarrow> RowsAffected (fst (DB_Delete_Question (fails env 0) ident db)) = 0)
       \<and> (fst (DeleteAnswer env ident db) = Some ErrRecordNotFound
            \<longleftrightarrow> RowsAffected (fst (DB_Delete_Answer (fails env 0) ident db)) = 0)"
proof (intro conjI impI)
  let ?gq = "\<lparr>Method = MethodGet, Path = ''/questions/'' @ idStr, Body = b\<rparr>"
  let ?dq = "\<lparr>Method = MethodDelete, Path = ''/questions/'' @ idStr, Body = b\<rparr>"
  let ?ga = "\<lparr>Method = MethodGet, Path = ''/answers/'' @ idStr, Body = b\<rparr>"
  let ?da = "\<lparr>Method = MethodDelete, Path = ''/answers/'' @ idStr, Body = b\<rparr>"
  have tq: "\<And>m. Atoi (TrimPrefix (Path \<lparr>Method = m, Path = ''/questions/'' @ idStr, Body = b\<rparr>)
      ''/questions/'') = Some ident"
    using TrimPrefix_append [of "''/questions/''" idStr] assms by simp
  have ta: "\<And>m. Atoi (TrimPrefix (Path \<lparr>Method = m, Path = ''/answers/'' @ idStr, Body = b\<rparr>)
      ''/answers/'') = Some ident"
    using TrimPrefix_append [of "''/answers/''" idStr] assms by simp
  {
    assume q: "ident \<notin> set (question_ids db)"
    from GetQuestionWithAnswers_absent [OF q] obtain e
      where "GetQuestionWithAnswers env ident db = Inl e" by blast
    from GetQuestionHandler_error [OF tq this]
    have "GetQuestionHandler ?gq env db = (http_Error ''not found'' StatusNotFound, db)" .
    then show "StatusCode (fst (questionsRoute ?gq env db)) = 404"
      unfolding route_get_question [OF assms] by (simp add: status_simps status_defs)
    from DeleteQuestionHandler_error [OF tq DeleteQuestion_absent [OF q]]
    show "StatusCode (fst (questionsRoute ?dq env db)) = 404"
      unfolding route_delete_question .
  }
  {
    assume a: "ident \<notin> set (answer_ids db)"
    from GetAnswer_absent [OF a] obtain e where "GetAnswer env ident db = Inl e" by blast
    from GetAnswerHandler_error [OF ta this]
    have "GetAnswerHandler ?ga env db = (http_Error ''not found'' StatusNotFound, db)" .
    then show "StatusCode (fst (answersRoute ?ga env db)) = 404"
      unfolding route_get_answer by (simp add: status_simps status_defs)
    from DeleteAnswerHandler_error [OF ta DeleteAnswer_absent [OF a]]
    show "StatusCode (fst (answersRoute ?da env db)) = 404"
      unfolding route_delete_answer .
  }
  show "fst (DeleteQuestion env ident db) = Some ErrRecordNotFound
            \<longleftrightarrow> RowsAffected (fst (DB_Delete_Question (fails env 0) ident db)) = 0"
    by (auto simp: DeleteQuestion_def DB_Delete_Question_def Let_def)
  show "fst (DeleteAnswer env ident db) = Some ErrRecordNotFound
            \<longleftrightarrow> RowsAffected (fst (DB_Delete_Answer (fails env 0) ident db)) = 0"
    by (auto simp: DeleteAnswer_def DB_Delete_Answer_def Let_def)
qed

theorem C4_missing_row_witness:
  "Atoi ''7'' = Some 7 \<and> 7 \<notin> set (question_ids sampleDB) \<and> 7 \<notin> set (answer_ids sampleDB)
   \<and> StatusCode (fst (questionsRoute
        \<lparr>Method = MethodGet, Path = ''/questions/7'', Body = None\<rparr> env0 sampleDB)) = 404
   \<and> StatusCode (fst (questionsRoute
        \<lparr>Method = MethodDelete, Path = ''/questions/7'', Body = None\<rparr> env0 sampleDB)) = 404
   \<and> StatusCode (fst (answersRoute
        \<lparr>Method = MethodGet, Path = ''/answers/7'', Body = None\<rparr> env0 sampleDB)) = 404
   \<and> StatusCode (fst (answersRoute
        \<lparr>Method = MethodDelete, Path = ''/answers/7'', Body = None\<rparr> env0 sampleDB)) = 404"
proof -
  have a: "Atoi ''7'' = Some 7" by code_simp
  have q: "7 \<notin> set (question_ids sampleDB)" by (simp add: question_ids_def sampleDB_def)
  have r: "7 \<notin> set (answer_ids sampleDB)" by (simp add: answer_ids_def sampleDB_def)
  show ?thesis
    using a q r C4_missing_row [OF a, of sampleDB None env0] by simp
qed

section \<open>Storage failures\<close>

text \<open>
  What each route answers when a database call of the request fails: the first call, or,
  for the two operations that make two calls, the second one (the preload, the insert of
  the answer).
\<close>

lemma storage_failure_statuses:
  assumes "Atoi idStr = Some ident"
    and "Decode [''text''] bq = Some reqq"
    and "Decode [''user_id'', ''text''] ba = Some reqa"
  shows "(fails env 0 \<longrightarrow>
            questionsRoute \<lparr>Method = MethodPost, Path = ''/questions/'', Body = bq\<rparr> env db
              = (http_Error ''internal'' 500, db)
          \<and> questionsRoute \<lparr>Method = MethodGet, Path = ''/questions/'', Body = b\<rparr> env db
              = (http_Error ''internal'' 500, db)
          \<and> questionsRoute \<lparr>Method = MethodGet, Path = ''/questions/'' @ idStr, Body = b\<rparr> env db
              = (http_Error ''not found'' 404, db)
          \<and> questionsRoute \<lparr>Method = MethodDelete, Path = ''/questions/'' @ idStr, Body = b\<rparr>
                env db
              = (http_Error ''not found'' 404, db)
          \<and> questionsRoute
                \<lparr>Method = MethodPost, Path = ''/questions/'' @ idStr @ ''/answers'', Body = ba\<rparr>
                env db
              = (http_Error ''question not found'' 400, db)
          \<and> answersRoute \<lparr>Method = MethodGet, Path = ''/answers/'' @ idStr, Body = b\<rparr> env db
              = (http_Error ''not found'' 404, db)
          \<and> answersRoute \<lparr>Method = MethodDelete, Path = ''/answers/'' @ idStr, Body = b\<rparr> env db
              = (http_Error ''not found'' 404, db))
       \<and> (\<not> fails env 0 \<and> fails env 1 \<and> ident \<in> set (question_ids db) \<longrightarrow>
            questionsRoute \<lparr>Method = MethodGet, Path = ''/questions/'' @ idStr, Body = b\<rparr> env db
              = (http_Error ''not found'' 404, db)
          \<and> questionsRoute
                \<lparr>Method = MethodPost, Path = ''/questions/'' @ idStr @ ''/answers'', Body = ba\<rparr>
                env db
              = (http_Error ''question not found'' 400, db))"
proof (intro conjI impI)
  have tq: "TrimPrefix (''/questions/'' @ idStr) ''/questions/'' = idStr"
    by (rule TrimPrefix_append)
  have ta: "TrimPrefix (''/answers/'' @ idStr) ''/answers/'' = idStr"
    by (rule TrimPrefix_append)
  {
    assume f: "fails env 0"
    show "questionsRoute \<lparr>Method = MethodPost, Path = ''/questions/'', Body = bq\<rparr> env db
              = (http_Error ''internal'' 500, db)"
      unfolding route_create_question
      by (simp add: CreateQuestionHandler_def assms(2) CreateQuestion_def DB_Create_Question_def
          f status_defs)
    show "questionsRoute \<lparr>Method = MethodGet, Path = ''/questions/'', Body = b\<rparr> env db
              = (http_Error ''internal'' 500, db)"
      unfolding route_list_questions
      by (simp add: GetAllQuestionsHandler_def GetAllQuestions_def DB_Find_Questions_def f
          status_defs)
    show "questionsRoute \<lparr>Method = MethodGet, Path = ''/questions/'' @ idStr, Body = b\<rparr> env db
              = (http_Error ''not found'' 404, db)"
      unfolding route_get_question [OF assms(1)]
      by (simp add: GetQuestionHandler_def tq assms(1) GetQuestionWithAnswers_def
          DB_First_Question_def f status_defs del: append.simps)
    show "questionsRoute \<lparr>Method = MethodDelete, Path = ''/questions/'' @ idStr, Body = b\<rparr>
                env db
              = (http_Error ''not found'' 404, db)"
      unfolding route_delete_question
      by (simp add: DeleteQuestionHandler_def tq assms(1) DeleteQuestion_def
          DB_Delete_Question_def f status_defs del: append.simps)
    show "questionsRoute
                \<lparr>Method = MethodPost, Path = ''/questions/'' @ idStr @ ''/answers'', Body = ba\<rparr>
                env db
              = (http_Error ''question not found'' 400, db)"
      unfolding route_create_answer CreateAnswerHandler_reaches_store [OF assms(1) assms(3)]
      by (simp add: CreateAnswer_def DB_First_Question_def f status_defs)
    show "answersRoute \<lparr>Method = MethodGet, Path = ''/answers/'' @ idStr, Body = b\<rparr> env db
              = (http_Error ''not found'' 404, db)"
      unfolding route_get_answer
      by (simp add: GetAnswerHandler_def ta assms(1) GetAnswer_def DB_First_Answer_def f
          status_defs del: append.simps)
    show "answersRoute \<lparr>Method = MethodDelete, Path = ''/answers/'' @ idStr, Body = b\<rparr> env db
              = (http_Error ''not found'' 404, db)"
      unfolding route_delete_answer
      by (simp add: DeleteAnswerHandler_def ta assms(1) DeleteAnswer_def DB_Delete_Answer_def f
          status_defs del: append.simps)
  }
  {
    assume f: "\<not> fails env 0 \<and> fails env 1 \<and> ident \<in> set (question_ids db)"
    then obtain row where row: "find (\<lambda>r. fst r = ident) (questions db) = Some row"
      using find_fst_present [of ident "questions db"] by (auto simp: question_ids_def)
    show "questionsRoute \<lparr>Method = MethodGet, Path = ''/questions/'' @ idStr, Body = b\<rparr> env db
              = (http_Error ''not found'' 404, db)"
      unfolding route_get_question [OF assms(1)]
      using f
      by (simp add: GetQuestionHandler_def tq assms(1) GetQuestionWithAnswers_def
          DB_First_Question_def DB_Preload_Answers_def row status_defs del: append.simps)
    show "questionsRoute
                \<lparr>Method = MethodPost, Path = ''/questions/'' @ idStr @ ''/answers'', Body = ba\<rparr>
                env db
              = (http_Error ''question not found'' 400, db)"
      unfolding route_create_answer CreateAnswerHandler_reaches_store [OF assms(1) assms(3)]
      using f
      by (simp add: CreateAnswer_def DB_First_Question_def DB_Create_Answer_def row status_defs)
  }
qed

text \<open>
  Claim C5. Every request on which the storage fails unexpectedly is to be answered with
  500. The code does so only when creating and when listing questions. Evaluated on the
  sample store with every database call failing: GET of question 1, which is in the store,
  answers 404, as do DELETE of question 1 and GET and DELETE of answer 1, and creating an
  answer under question 1 answers 400, while the listing and the creation of a question
  answer 500.
\<close>

theorem C5_storage_failure_not_500:
  "fails envDown 0
   \<and> (1::int) \<in> set (question_ids sampleDB) \<and> (1::int) \<in> set (answer_ids sampleDB)
   \<and> StatusCode (fst (questionsRoute
        \<lparr>Method = MethodGet, Path = ''/questions/1'', Body = None\<rparr> envDown sampleDB)) = 404
   \<and> StatusCode (fst (questionsRoute
        \<lparr>Method = MethodDelete, Path = ''/questions/1'', Body = None\<rparr> envDown sampleDB)) = 404
   \<and> StatusCode (fst (questionsRoute
        \<lparr>Method = MethodPost, Path = ''/questions/1/answers'',
          Body = Some (JObject [(''user_id'', JString ''u1''), (''text'', JString ''Again'')])\<rparr>
        envDown sampleDB)) = 400
   \<and> StatusCode (fst (answersRoute
        \<lparr>Method = MethodGet, Path = ''/answers/1'', Body = None\<rparr> envDown sampleDB)) = 404
   \<and> StatusCode (fst (answersRoute
        \<lparr>Method = MethodDelete, Path = ''/answers/1'', Body = None\<rparr> envDown sampleDB)) = 404
   \<and> StatusCode (fst (questionsRoute
        \<lparr>Method = MethodGet, Path = ''/questions/'', Body = None\<rparr> envDown sampleDB)) = 500
   \<and> StatusCode (fst (questionsRoute
        \<lparr>Method = MethodPost, Path = ''/questions/'',
          Body = Some (JObject [(''text'', JString ''Why?'')])\<rparr> envDown sampleDB)) = 500"
  by code_simp

section \<open>Referential integrity and the cascade\<close>

text \<open>
  Claim C2. In every store the service can reach, each answer's \<open>question_id\<close> has a
  question row. An answer that a call adds references a question that is in the store
  when the call starts, because \<open>CreateAnswer\<close> succeeds only after reading that
  question; afterwards the reference stays valid because deleting the question removes the
  answer with it (the invariant is kept by every call).
\<close>

theorem C2_referential_integrity:
  assumes "reachable db"
  shows "(\<forall>a \<in> set (answers db). aQuestionID a \<in> set (question_ids db))
       \<and> (\<forall>a \<in> set (answers (snd (serve c db))).
             a \<in> set (answers db) \<or> aQuestionID a \<in> set (question_ids db))
       \<and> (fst (CreateAnswer env x db) = None \<longrightarrow> aQuestionID x \<in> set (question_ids db))"
proof (intro conjI)
  show "\<forall>a \<in> set (answers db). aQuestionID a \<in> set (question_ids db)"
    using reachable_consistent [OF assms] by (simp add: consistent_def)
  show "\<forall>a \<in> set (answers (snd (serve c db))).
             a \<in> set (answers db) \<or> aQuestionID a \<in> set (question_ids db)"
    using answers_step_serve [of db c] by (auto simp: answers_step_def)
  show "fst (CreateAnswer env x db) = None \<longrightarrow> aQuestionID x \<in> set (question_ids db)"
    using CreateAnswer_checks_question [of env x db]
    by (cases "CreateAnswer env x db") auto
qed

theorem C2_referential_integrity_witness:
  "reachable sampleDB
   \<and> list_all (\<lambda>a. aQuestionID a \<in> set (question_ids sampleDB)) (answers sampleDB)
   \<and> answers sampleDB \<noteq> []
   \<and> fst (CreateAnswer env0
        \<lparr>aID = 0, aQuestionID = 1, aUserID = ''u2'', aText = ''Again'', aCreatedAt = ZeroTime\<rparr>
        sampleDB) = None
   \<and> (1::int) \<in> set (question_ids sampleDB)"
proof -
  have c: "fst (CreateAnswer env0
        \<lparr>aID = 0, aQuestionID = 1, aUserID = ''u2'', aText = ''Again'', aCreatedAt = ZeroTime\<rparr>
        sampleDB) = None"
    by code_simp
  have n: "answers sampleDB \<noteq> []" by (simp add: sampleDB_def)
  show ?thesis
    using C2_referential_integrity [OF reachable_sampleDB, where env = env0
        and x = "\<lparr>aID = 0, aQuestionID = 1, aUserID = ''u2'', aText = ''Again'',
                   aCreatedAt = ZeroTime\<rparr>"]
      reachable_sampleDB c n
    by (simp add: list_all_iff)
qed

text \<open>
  Claim C1. Deleting a question that is in the store (the storage not failing) answers
  204, removes the question and leaves no answer with its id as \<open>question_id\<close>; and for
  every answer the question had, a GET of that answer's id answers 404, immediately and
  after any further calls (ids are not handed out twice).
\<close>

theorem C1_cascade_delete:
  assumes "reachable db" and "Atoi idStr = Some ident"
    and "ident \<in> set (question_ids db)" and "\<not> fails env 0"
  shows "StatusCode (fst (questionsRoute
            \<lparr>Method = MethodDelete, Path = ''/questions/'' @ idStr, Body = b\<rparr> env db)) = 204
       \<and> ident \<notin> set (question_ids (snd (questionsRoute
            \<lparr>Method = MethodDelete, Path = ''/questions/'' @ idStr, Body = b\<rparr> env db)))
       \<and> (\<forall>x \<in> set (answers (snd (questionsRoute
            \<lparr>Method = MethodDelete, Path = ''/questions/'' @ idStr, Body = b\<rparr> env db))).
            aQuestionID x \<noteq> ident)
       \<and> (\<forall>a \<in> set (answers db). aQuestionID a = ident \<longrightarrow>
            (\<forall>aStr cs env' b'. Atoi aStr = Some (aID a) \<longrightarrow>
               StatusCode (fst (answersRoute
                 \<lparr>Method = MethodGet, Path = ''/answers/'' @ aStr, Body = b'\<rparr> env'
                 (snd (run cs (snd (questionsRoute
                    \<lparr>Method = MethodDelete, Path = ''/questions/'' @ idStr, Body = b\<rparr>
                    env db)))))) = 404))"
proof -
  let ?del = "\<lparr>Method = MethodDelete, Path = ''/questions/'' @ idStr, Body = b\<rparr>"
  let ?db' = "db\<lparr>questions := filter (\<lambda>r. fst r \<noteq> ident) (questions db),
               answers := filter (\<lambda>a. aQuestionID a \<noteq> ident) (answers db)\<rparr>"
  have trim: "Atoi (TrimPrefix (Path ?del) ''/questions/'') = Some ident"
    using TrimPrefix_append [of "''/questions/''" idStr] assms(2) by simp
  have res: "questionsRoute ?del env db
      = (\<lparr>StatusCode = StatusNoContent, Payload = NoBody\<rparr>, ?db')"
    unfolding route_delete_question
    by (rule DeleteQuestionHandler_present [OF trim assms(3,4)])
  have cons: "consistent db" by (rule reachable_consistent [OF assms(1)])
  have s: "StatusCode (fst (questionsRoute ?del env db)) = 204"
    unfolding res by (simp add: status_defs)
  have q: "ident \<notin> set (question_ids (snd (questionsRoute ?del env db)))"
    unfolding res by (auto simp: ids_simps)
  have x: "\<forall>x \<in> set (answers (snd (questionsRoute ?del env db))). aQuestionID x \<noteq> ident"
    unfolding res by simp
  have g: "\<forall>a \<in> set (answers db). aQuestionID a = ident \<longrightarrow>
            (\<forall>aStr cs env' b'. Atoi aStr = Some (aID a) \<longrightarrow>
               StatusCode (fst (answersRoute
                 \<lparr>Method = MethodGet, Path = ''/answers/'' @ aStr, Body = b'\<rparr> env'
                 (snd (run cs (snd (questionsRoute ?del env db)))))) = 404)"
  proof (intro ballI impI allI)
    fix a aStr cs env' b'
    assume a: "a \<in> set (answers db)" "aQuestionID a = ident" "Atoi aStr = Some (aID a)"
    let ?get = "\<lparr>Method = MethodGet, Path = ''/answers/'' @ aStr, Body = b'\<rparr>"
    have inj: "inj_on aID (set (answers db))"
      using cons by (simp add: consistent_def answer_ids_def distinct_map)
    have gone: "aID a \<notin> set (answer_ids ?db')"
    proof
      assume "aID a \<in> set (answer_ids ?db')"
      then obtain a2 where a2: "a2 \<in> set (answers db)" "aQuestionID a2 \<noteq> ident"
          "aID a2 = aID a"
        by (auto simp: ids_simps)
      with inj a(1) have "a2 = a" by (auto dest: inj_onD)
      with a2 a(2) show False by simp
    qed
    have below: "aID a < answers_id_seq ?db'"
      using cons a(1) by (auto simp: consistent_def answer_ids_def)
    from gone_run [OF gone below, of cs]
    have absent: "aID a \<notin> set (answer_ids (snd (run cs ?db')))" by simp
    from GetAnswer_absent [OF absent] obtain e
      where e: "GetAnswer env' (aID a) (snd (run cs ?db')) = Inl e" by blast
    have ta: "Atoi (TrimPrefix (Path ?get) ''/answers/'') = Some (aID a)"
      using TrimPrefix_append [of "''/answers/''" aStr] a(3) by simp
    from GetAnswerHandler_error [OF ta e]
    have "StatusCode (fst (answersRoute ?get env' (snd (run cs ?db')))) = 404"
      unfolding route_get_answer by (simp add: status_simps status_defs)
    then show "StatusCode (fst (answersRoute ?get env'
                 (snd (run cs (snd (questionsRoute ?del env db)))))) = 404"
      unfolding res by simp
  qed
  from s q x g show ?thesis by (intro conjI)
qed

theorem C1_cascade_delete_witness:
  "reachable sampleDB \<and> Atoi ''1'' = Some 1 \<and> (1::int) \<in> set (question_ids sampleDB)
   \<and> \<not> fails env0 0
   \<and> aQuestionID (hd (answers sampleDB)) = 1 \<and> Atoi ''1'' = Some (aID (hd (answers sampleDB)))
   \<and> StatusCode (fst (questionsRoute
        \<lparr>Method = MethodDelete, Path = ''/questions/1'', Body = None\<rparr> env0 sampleDB)) = 204
   \<and> answers (snd (questionsRoute
        \<lparr>Method = MethodDelete, Path = ''/questions/1'', Body = None\<rparr> env0 sampleDB)) = []
   \<and> StatusCode (fst (answersRoute
        \<lparr>Method = MethodGet, Path = ''/answers/1'', Body = None\<rparr> env0
        (snd (run [] (snd (questionsRoute
           \<lparr>Method = MethodDelete, Path = ''/questions/1'', Body = None\<rparr> env0 sampleDB)))))) = 404"
proof -
  have a: "Atoi ''1'' = Some 1" by code_simp
  have q: "(1::int) \<in> set (question_ids sampleDB)" by (simp add: question_ids_def sampleDB_def)
  have f: "\<not> fails env0 0" by (simp add: env0_def noFaults_def)
  have h: "hd (answers sampleDB) \<in> set (answers sampleDB)"
      "aQuestionID (hd (answers sampleDB)) = 1" "Atoi ''1'' = Some (aID (hd (answers sampleDB)))"
    using a by (simp_all add: sampleDB_def)
  have e: "answers (snd (questionsRoute
        \<lparr>Method = MethodDelete, Path = ''/questions/1'', Body = None\<rparr> env0 sampleDB)) = []"
    by code_simp
  note t = C1_cascade_delete [OF reachable_sampleDB a q f, of None]
  from t have s: "StatusCode (fst (questionsRoute
        \<lparr>Method = MethodDelete, Path = ''/questions/'' @ ''1'', Body = None\<rparr> env0 sampleDB)) = 204"
    by (rule conjunct1)
  from t have g: "\<forall>a \<in> set (answers sampleDB). aQuestionID a = 1 \<longrightarrow>
            (\<forall>aStr cs env' b'. Atoi aStr = Some (aID a) \<longrightarrow>
               StatusCode (fst (answersRoute
                 \<lparr>Method = MethodGet, Path = ''/answers/'' @ aStr, Body = b'\<rparr> env'
                 (snd (run cs (snd (questionsRoute
                    \<lparr>Method = MethodDelete, Path = ''/questions/'' @ ''1'', Body = None\<rparr>
                    env0 sampleDB)))))) = 404)"
    by (elim conjE)
  from g h have "StatusCode (fst (answersRoute
                 \<lparr>Method = MethodGet, Path = ''/answers/'' @ ''1'', Body = None\<rparr> env0
                 (snd (run [] (snd (questionsRoute
                    \<lparr>Method = MethodDelete, Path = ''/questions/'' @ ''1'', Body = None\<rparr>
                    env0 sampleDB)))))) = 404"
    by blast
  with s reachable_sampleDB a q f h e show ?thesis by simp
qed

section \<open>Listing and creating\<close>

text \<open>
  Claim C7. With the storage answering, GET on the collection path answers 200 with one
  entry per row of \<open>questions\<close>, carrying the row's id, text and creation time and an
  empty \<open>Answers\<close> collection; and when the store is the result of a sequence of calls
  from the empty store none of which is a DELETE, the number of entries is the number of
  calls that reported a created question.
\<close>

theorem C7_list_questions:
  assumes "Method r = MethodGet" and "Path r = ''/questions/'' \<or> Path r = ''/questions''"
    and "\<not> fails env 0"
  shows "\<exists>qs. questionsRoute r env db = (\<lparr>StatusCode = 200, Payload = QuestionsJSON qs\<rparr>, db)
          \<and> map (\<lambda>q. (qID q, qText q, qCreatedAt q)) qs = questions db
          \<and> (\<forall>q \<in> set qs. qAnswers q = [])
          \<and> (\<forall>cs. db = snd (run cs emptyDB) \<and> (\<forall>c \<in> set cs. callMethod c \<noteq> MethodDelete)
                \<longrightarrow> length qs = length (filter created (fst (run cs emptyDB))))"
proof -
  let ?qs = "map scanQuestion (questions db)"
  have route: "questionsRoute r env db = (\<lparr>StatusCode = 200, Payload = QuestionsJSON ?qs\<rparr>, db)"
    using assms
    by (auto simp: questionsRoute_def GetAllQuestionsHandler_def GetAllQuestions_def
        DB_Find_Questions_def StatusOK_def methods_distinct)
  have rows: "map (\<lambda>q. (qID q, qText q, qCreatedAt q)) ?qs = questions db"
    by (simp add: scanQuestion_def comp_def)
  have none: "\<forall>q \<in> set ?qs. qAnswers q = []"
    by (auto simp: scanQuestion_def)
  have n: "\<forall>cs. db = snd (run cs emptyDB) \<and> (\<forall>c \<in> set cs. callMethod c \<noteq> MethodDelete)
                \<longrightarrow> length ?qs = length (filter created (fst (run cs emptyDB)))"
  proof (intro allI impI)
    fix cs
    assume h: "db = snd (run cs emptyDB) \<and> (\<forall>c \<in> set cs. callMethod c \<noteq> MethodDelete)"
    then have "length (questions db) = length (questions emptyDB)
        + length (filter created (fst (run cs emptyDB)))"
      using count_run [of cs emptyDB] by simp
    then show "length ?qs = length (filter created (fst (run cs emptyDB)))"
      by (simp add: emptyDB_def)
  qed
  from route rows none n show ?thesis by blast
qed

theorem C7_list_questions_witness:
  "Method \<lparr>Method = MethodGet, Path = ''/questions/'', Body = None\<rparr> = MethodGet
   \<and> \<not> fails env0 0
   \<and> sampleDB = snd (run sampleCalls emptyDB)
   \<and> list_all (\<lambda>c. callMethod c \<noteq> MethodDelete) sampleCalls
   \<and> length (filter created (fst (run sampleCalls emptyDB))) = 1
   \<and> questionsRoute \<lparr>Method = MethodGet, Path = ''/questions/'', Body = None\<rparr> env0 sampleDB
       = (\<lparr>StatusCode = 200,
           Payload = QuestionsJSON
             [\<lparr>qID = 1, qText = ''Why?'', qCreatedAt = Instant 1, qAnswers = []\<rparr>]\<rparr>, sampleDB)"
proof -
  let ?r = "\<lparr>Method = MethodGet, Path = ''/questions/'', Body = None\<rparr>"
  have m: "Method ?r = MethodGet" by simp
  have p: "Path ?r = ''/questions/'' \<or> Path ?r = ''/questions''" by simp
  have f: "\<not> fails env0 0" by (simp add: env0_def noFaults_def)
  have d: "list_all (\<lambda>c. callMethod c \<noteq> MethodDelete) sampleCalls" by code_simp
  from C7_list_questions [OF m p f, of sampleDB] obtain qs where
    qs: "questionsRoute ?r env0 sampleDB = (\<lparr>StatusCode = 200, Payload = QuestionsJSON qs\<rparr>, sampleDB)"
      "map (\<lambda>q. (qID q, qText q, qCreatedAt q)) qs = questions sampleDB"
      "\<forall>q \<in> set qs. qAnswers q = []"
      "\<forall>cs. sampleDB = snd (run cs emptyDB) \<and> (\<forall>c \<in> set cs. callMethod c \<noteq> MethodDelete)
                \<longrightarrow> length qs = length (filter created (fst (run cs emptyDB)))"
    by blast
  from qs(4) run_sampleCalls d
  have n: "length qs = length (filter created (fst (run sampleCalls emptyDB)))"
    by (simp add: list_all_iff)
  from qs(2) obtain q where q: "qs = [q]" "qID q = 1" "qText q = ''Why?''" "qCreatedAt q = Instant 1"
    by (auto simp: sampleDB_def map_eq_Cons_conv)
  with qs(3) have "qAnswers q = []" by simp
  with q have "q = \<lparr>qID = 1, qText = ''Why?'', qCreatedAt = Instant 1, qAnswers = []\<rparr>"
    by (cases q) simp
  with qs(1) q(1) have e: "questionsRoute ?r env0 sampleDB
       = (\<lparr>StatusCode = 200,
           Payload = QuestionsJSON
             [\<lparr>qID = 1, qText = ''Why?'', qCreatedAt = Instant 1, qAnswers = []\<rparr>]\<rparr>, sampleDB)"
    by simp
  from n q(1) have k: "length (filter created (fst (run sampleCalls emptyDB))) = 1" by simp
  from m f d k e run_sampleCalls [symmetric] show ?thesis by (intro conjI)
qed

text \<open>
  Claim C9. An \<open>id\<close> or \<open>created_at\<close> member of the body changes nothing in what
  either create handler does. When a question is created (201), the body decoded, the
  returned question carries the decoded text, the id is the next value of the sequence
  (never zero) and the creation time is the clock's reading (never the zero time); and
  fetching the returned id, with the storage answering, gives that same question. The same
  holds for answers, with \<open>user_id\<close> beside the text.
\<close>

theorem C9_server_generated:
  assumes "reachable db"
  shows "(k = ''id'' \<or> k = ''created_at'' \<longrightarrow>
            CreateQuestionHandler
              \<lparr>Method = m, Path = p, Body = Some (JObject (kvs1 @ (k, v) # kvs2))\<rparr> env db
            = CreateQuestionHandler
              \<lparr>Method = m, Path = p, Body = Some (JObject (kvs1 @ kvs2))\<rparr> env db
          \<and> CreateAnswerHandler
              \<lparr>Method = m, Path = p, Body = Some (JObject (kvs1 @ (k, v) # kvs2))\<rparr> env db
            = CreateAnswerHandler
              \<lparr>Method = m, Path = p, Body = Some (JObject (kvs1 @ kvs2))\<rparr> env db)
       \<and> (StatusCode (fst (CreateQuestionHandler r env db)) = 201 \<longrightarrow>
            (\<exists>req q. Decode [''text''] (Body r) = Some req
               \<and> Payload (fst (CreateQuestionHandler r env db)) = QuestionJSON q
               \<and> qText q = req ''text''
               \<and> qID q = questions_id_seq db \<and> qID q \<noteq> 0
               \<and> qCreatedAt q = Instant (now env)
               \<and> (\<forall>idStr env' b'.
                     Atoi idStr = Some (qID q) \<and> \<not> fails env' 0 \<and> \<not> fails env' 1 \<longrightarrow>
                     fst (questionsRoute
                            \<lparr>Method = MethodGet, Path = ''/questions/'' @ idStr, Body = b'\<rparr> env'
                            (snd (CreateQuestionHandler r env db)))
                       = \<lparr>StatusCode = 200, Payload = QuestionJSON q\<rparr>)))
       \<and> (StatusCode (fst (CreateAnswerHandler r env db)) = 201 \<longrightarrow>
            (\<exists>req a. Decode [''user_id'', ''text''] (Body r) = Some req
               \<and> Payload (fst (CreateAnswerHandler r env db)) = AnswerJSON a
               \<and> aText a = req ''text'' \<and> aUserID a = req ''user_id''
               \<and> aID a = answers_id_seq db \<and> aID a \<noteq> 0
               \<and> aCreatedAt a = Instant (now env)
               \<and> (\<forall>idStr env' b'.
                     Atoi idStr = Some (aID a) \<and> \<not> fails env' 0 \<longrightarrow>
                     fst (answersRoute
                            \<lparr>Method = MethodGet, Path = ''/answers/'' @ idStr, Body = b'\<rparr> env'
                            (snd (CreateAnswerHandler r env db)))
                       = \<lparr>StatusCode = 200, Payload = AnswerJSON a\<rparr>)))"
proof (intro conjI impI)
  have cons: "consistent db" by (rule reachable_consistent [OF assms])
  {
    assume k: "k = ''id'' \<or> k = ''created_at''"
    then have q: "fieldFor [''text''] k = None" and a: "fieldFor [''user_id'', ''text''] k = None"
      using question_fields_only answer_fields_only by auto
    show "CreateQuestionHandler
              \<lparr>Method = m, Path = p, Body = Some (JObject (kvs1 @ (k, v) # kvs2))\<rparr> env db
            = CreateQuestionHandler
              \<lparr>Method = m, Path = p, Body = Some (JObject (kvs1 @ kvs2))\<rparr> env db"
      by (simp add: CreateQuestionHandler_def Decode_skip [OF q])
    show "CreateAnswerHandler
              \<lparr>Method = m, Path = p, Body = Some (JObject (kvs1 @ (k, v) # kvs2))\<rparr> env db
            = CreateAnswerHandler
              \<lparr>Method = m, Path = p, Body = Some (JObject (kvs1 @ kvs2))\<rparr> env db"
      by (auto simp: CreateAnswerHandler_def Let_def Decode_skip [OF a] split: option.splits)
  }
  {
    assume s: "StatusCode (fst (CreateQuestionHandler r env db)) = 201"
    from CreateQuestionHandler_created [OF s] obtain req where
      req: "Decode [''text''] (Body r) = Some req"
      and h: "CreateQuestionHandler r env db =
               (\<lparr>StatusCode = StatusCreated,
                  Payload = QuestionJSON
                    \<lparr>qID = questions_id_seq db, qText = req ''text'',
                      qCreatedAt = Instant (now env), qAnswers = []\<rparr>\<rparr>,
                db\<lparr>questions := questions db
                       @ [(questions_id_seq db, req ''text'', Instant (now env))],
                   questions_id_seq := questions_id_seq db + 1\<rparr>)"
      by blast
    let ?q = "\<lparr>qID = questions_id_seq db, qText = req ''text'',
                qCreatedAt = Instant (now env), qAnswers = []\<rparr>"
    have nz: "questions_id_seq db \<noteq> 0" using cons by (simp add: consistent_def)
    have fetch: "\<forall>idStr env' b'.
                     Atoi idStr = Some (qID ?q) \<and> \<not> fails env' 0 \<and> \<not> fails env' 1 \<longrightarrow>
                     fst (questionsRoute
                            \<lparr>Method = MethodGet, Path = ''/questions/'' @ idStr, Body = b'\<rparr> env'
                            (snd (CreateQuestionHandler r env db)))
                       = \<lparr>StatusCode = 200, Payload = QuestionJSON ?q\<rparr>"
      unfolding h using fetch_created_question [OF cons] by simp
    show "\<exists>req q. Decode [''text''] (Body r) = Some req
               \<and> Payload (fst (CreateQuestionHandler r env db)) = QuestionJSON q
               \<and> qText q = req ''text''
               \<and> qID q = questions_id_seq db \<and> qID q \<noteq> 0
               \<and> qCreatedAt q = Instant (now env)
               \<and> (\<forall>idStr env' b'.
                     Atoi idStr = Some (qID q) \<and> \<not> fails env' 0 \<and> \<not> fails env' 1 \<longrightarrow>
                     fst (questionsRoute
                            \<lparr>Method = MethodGet, Path = ''/questions/'' @ idStr, Body = b'\<rparr> env'
                            (snd (CreateQuestionHandler r env db)))
                       = \<lparr>StatusCode = 200, Payload = QuestionJSON q\<rparr>)"
      apply (rule exI [of _ req])
      apply (rule exI [of _ ?q])
      using req nz fetch by (simp add: h)
  }
  {
    assume s: "StatusCode (fst (CreateAnswerHandler r env db)) = 201"
    from CreateAnswerHandler_created [OF s] obtain req i where
      req: "Decode [''user_id'', ''text''] (Body r) = Some req"
      and h: "CreateAnswerHandler r env db =
               (\<lparr>StatusCode = StatusCreated,
                  Payload = AnswerJSON
                    \<lparr>aID = answers_id_seq db, aQuestionID = i, aUserID = req ''user_id'',
                      aText = req ''text'', aCreatedAt = Instant (now env)\<rparr>\<rparr>,
                db\<lparr>answers := answers db
                       @ [\<lparr>aID = answers_id_seq db, aQuestionID = i,
                            aUserID = req ''user_id'', aText = req ''text'',
                            aCreatedAt = Instant (now env)\<rparr>],
                   answers_id_seq := answers_id_seq db + 1\<rparr>)"
      by blast
    let ?a = "\<lparr>aID = answers_id_seq db, aQuestionID = i, aUserID = req ''user_id'',
                aText = req ''text'', aCreatedAt = Instant (now env)\<rparr>"
    have nz: "answers_id_seq db \<noteq> 0" using cons by (simp add: consistent_def)
    have fetch: "\<forall>idStr env' b'.
                     Atoi idStr = Some (aID ?a) \<and> \<not> fails env' 0 \<longrightarrow>
                     fst (answersRoute
                            \<lparr>Method = MethodGet, Path = ''/answers/'' @ idStr, Body = b'\<rparr> env'
                            (snd (CreateAnswerHandler r env db)))
                       = \<lparr>StatusCode = 200, Payload = AnswerJSON ?a\<rparr>"
      unfolding h using fetch_created_answer [OF cons, where a = ?a] by simp
    show "\<exists>req a. Decode [''user_id'', ''text''] (Body r) = Some req
               \<and> Payload (fst (CreateAnswerHandler r env db)) = AnswerJSON a
               \<and> aText a = req ''text'' \<and> aUserID a = req ''user_id''
               \<and> aID a = answers_id_seq db \<and> aID a \<noteq> 0
               \<and> aCreatedAt a = Instant (now env)
               \<and> (\<forall>idStr env' b'.
                     Atoi idStr = Some (aID a) \<and> \<not> fails env' 0 \<longrightarrow>
                     fst (answersRoute
                            \<lparr>Method = MethodGet, Path = ''/answers/'' @ idStr, Body = b'\<rparr> env'
                            (snd (CreateAnswerHandler r env db)))
                       = \<lparr>StatusCode = 200, Payload = AnswerJSON a\<rparr>)"
      apply (rule exI [of _ req])
      apply (rule exI [of _ ?a])
      using req nz fetch by (simp add: h)
  }
qed

theorem C9_server_generated_witness:
  "reachable sampleDB
   \<and> CreateQuestionHandler
        \<lparr>Method = MethodPost, Path = ''/questions/'',
          Body = Some (JObject ([] @ (''id'', JNumber ''7'') # [(''text'', JString ''Q2'')]))\<rparr>
        env0 sampleDB
     = CreateQuestionHandler
        \<lparr>Method = MethodPost, Path = ''/questions/'',
          Body = Some (JObject ([] @ [(''text'', JString ''Q2'')]))\<rparr> env0 sampleDB
   \<and> StatusCode (fst (CreateQuestionHandler
        \<lparr>Method = MethodPost, Path = ''/questions/'',
          Body = Some (JObject [(''id'', JNumber ''7''), (''text'', JString ''Q2'')])\<rparr>
        env0 sampleDB)) = 201
   \<and> Atoi ''2'' = Some 2 \<and> \<not> fails env0 0 \<and> \<not> fails env0 1
   \<and> fst (questionsRoute \<lparr>Method = MethodGet, Path = ''/questions/'' @ ''2'', Body = None\<rparr> env0
        (snd (CreateQuestionHandler
           \<lparr>Method = MethodPost, Path = ''/questions/'',
             Body = Some (JObject [(''id'', JNumber ''7''), (''text'', JString ''Q2'')])\<rparr>
           env0 sampleDB)))
     = \<lparr>StatusCode = 200,
        Payload = QuestionJSON
          \<lparr>qID = 2, qText = ''Q2'', qCreatedAt = Instant 3, qAnswers = []\<rparr>\<rparr>"
proof -
  let ?r = "\<lparr>Method = MethodPost, Path = ''/questions/'',
             Body = Some (JObject [(''id'', JNumber ''7''), (''text'', JString ''Q2'')])\<rparr>"
  let ?q = "\<lparr>qID = 2, qText = ''Q2'', qCreatedAt = Instant 3, qAnswers = []\<rparr>"
  note t = C9_server_generated [OF reachable_sampleDB, where k = "''id''" and env = env0
      and r = ?r]
  have s: "StatusCode (fst (CreateQuestionHandler ?r env0 sampleDB)) = 201" by code_simp
  have pl: "Payload (fst (CreateQuestionHandler ?r env0 sampleDB)) = QuestionJSON ?q"
    by code_simp
  have a: "Atoi ''2'' = Some 2" by code_simp
  have f: "\<not> fails env0 0" "\<not> fails env0 1" by (simp_all add: env0_def noFaults_def)
  from t have eq: "CreateQuestionHandler
        \<lparr>Method = MethodPost, Path = ''/questions/'',
          Body = Some (JObject ([] @ (''id'', JNumber ''7'') # [(''text'', JString ''Q2'')]))\<rparr>
        env0 sampleDB
     = CreateQuestionHandler
        \<lparr>Method = MethodPost, Path = ''/questions/'',
          Body = Some (JObject ([] @ [(''text'', JString ''Q2'')]))\<rparr> env0 sampleDB"
    by blast
  from t s obtain q where
    q: "Payload (fst (CreateQuestionHandler ?r env0 sampleDB)) = QuestionJSON q"
    and fetch: "\<forall>idStr env' b'.
                     Atoi idStr = Some (qID q) \<and> \<not> fails env' 0 \<and> \<not> fails env' 1 \<longrightarrow>
                     fst (questionsRoute
                            \<lparr>Method = MethodGet, Path = ''/questions/'' @ idStr, Body = b'\<rparr> env'
                            (snd (CreateQuestionHandler ?r env0 sampleDB)))
                       = \<lparr>StatusCode = 200, Payload = QuestionJSON q\<rparr>"
    by blast
  from q pl have "q = ?q" by simp
  with fetch a f have g: "fst (questionsRoute
        \<lparr>Method = MethodGet, Path = ''/questions/'' @ ''2'', Body = None\<rparr> env0
        (snd (CreateQuestionHandler ?r env0 sampleDB)))
     = \<lparr>StatusCode = 200, Payload = QuestionJSON ?q\<rparr>"
    by simp
  from reachable_sampleDB eq s a f g show ?thesis by (intro conjI)
qed

end
